theory Spec2Isabelle
  imports Main
begin

section \<open>JavaScript strings\<close>

text \<open>
  A JavaScript string is a sequence of UTF-16 code units. The sentinels of the placeholder
  vault (U+E000, U+E001) lie outside the 8-bit \<^typ>\<open>char\<close>, hence code units are
  integers here; \<open>js\<close> embeds an ASCII literal.
\<close>

type_synonym jstring = "int list"

definition js :: "string \<Rightarrow> int list" where
  "js cs = map of_char cs"

definition is_space :: "int \<Rightarrow> bool" where
  \<comment> \<open>the class \<open>\s\<close> and the characters removed by \<open>trim()\<close>: WhiteSpace and LineTerminator\<close>
  "is_space x = (x = 32 \<or> (9 \<le> x \<and> x \<le> 13) \<or> x = 160 \<or> x = 5760 \<or> (8192 \<le> x \<and> x \<le> 8202)
      \<or> x = 8232 \<or> x = 8233 \<or> x = 8239 \<or> x = 8287 \<or> x = 12288 \<or> x = 65279)"

definition is_digit :: "int \<Rightarrow> bool" where
  "is_digit x = (48 \<le> x \<and> x \<le> 57)"

definition is_upper :: "int \<Rightarrow> bool" where
  "is_upper x = (65 \<le> x \<and> x \<le> 90)"

definition is_lower :: "int \<Rightarrow> bool" where
  "is_lower x = (97 \<le> x \<and> x \<le> 122)"

definition is_word :: "int \<Rightarrow> bool" where
  \<comment> \<open>the class \<open>\w\<close>\<close>
  "is_word x = (is_lower x \<or> is_upper x \<or> is_digit x \<or> x = 95)"

definition is_line_term :: "int \<Rightarrow> bool" where
  \<comment> \<open>the characters that \<open>.\<close> does not match\<close>
  "is_line_term x = (x = 10 \<or> x = 13 \<or> x = 8232 \<or> x = 8233)"

definition swap_case :: "int \<Rightarrow> int" where
  "swap_case x = (if is_upper x then x + 32 else if is_lower x then x - 32 else x)"

section \<open>Regular expressions\<close>

text \<open>
  The regular expressions of the source are kept as syntax trees and run by one
  backtracking matcher that follows the ECMAScript semantics: alternatives are tried
  left to right, a greedy quantifier tries one more iteration before it stops, a lazy one
  stops first, and the first success in this order is the match.
\<close>

datatype citem = Ch char | Rg char char | Sp | NSp | Dg | Wd

datatype regex =
    Lit char
  | Cls "citem list"
  | NCls "citem list"
  | Dot
  | Bol
  | Eol
  | WordB
  | Eps
  | Seq regex regex
  | Alt regex regex
  | Rep nat "nat option" bool regex
  | Grp nat regex
  | Bref nat
  | Txt "int list"

text \<open>A matcher state: the index, the code unit before it, the input from the index on, and
  the captures (group number and captured text, the latest first). The captures of a group
  inside a quantifier are not reset between iterations; no expression of the source repeats
  a group more than once.\<close>

type_synonym captures = "(nat \<times> int list) list"
type_synonym mstate = "nat \<times> int option \<times> int list \<times> captures"

definition rest_of :: "mstate \<Rightarrow> int list" where
  "rest_of st = fst (snd (snd st))"

fun citem_mem :: "citem \<Rightarrow> int \<Rightarrow> bool" where
  "citem_mem (Ch c) x = (x = of_char c)"
| "citem_mem (Rg a b) x = (of_char a \<le> x \<and> x \<le> of_char b)"
| "citem_mem Sp x = is_space x"
| "citem_mem NSp x = (\<not> is_space x)"
| "citem_mem Dg x = is_digit x"
| "citem_mem Wd x = is_word x"

definition cls_mem :: "bool \<Rightarrow> citem list \<Rightarrow> int \<Rightarrow> bool" where
  \<comment> \<open>with the flag \<open>i\<close> a code unit matches when it or its other ASCII case is a member\<close>
  "cls_mem ci items x = (list_ex (\<lambda>it. citem_mem it x) items
      \<or> (ci \<and> list_ex (\<lambda>it. citem_mem it (swap_case x)) items))"

definition step1 :: "(int \<Rightarrow> bool) \<Rightarrow> mstate \<Rightarrow> mstate list" where
  "step1 P st = (case st of (i, p, r, cs) \<Rightarrow>
     (case r of [] \<Rightarrow> [] | x # xs \<Rightarrow> if P x then [(Suc i, Some x, xs, cs)] else []))"

definition at_word_boundary :: "int option \<Rightarrow> int list \<Rightarrow> bool" where
  "at_word_boundary p r =
     ((case p of None \<Rightarrow> False | Some x \<Rightarrow> is_word x) \<noteq> (case r of [] \<Rightarrow> False | x # _ \<Rightarrow> is_word x))"

fun match_text :: "bool \<Rightarrow> int list \<Rightarrow> mstate \<Rightarrow> mstate list" where
  "match_text ci [] st = [st]"
| "match_text ci (w # ws) st =
     concat (map (match_text ci ws) (step1 (\<lambda>x. x = w \<or> (ci \<and> swap_case x = w)) st))"

function rep_loop :: "(mstate \<Rightarrow> mstate list) \<Rightarrow> bool \<Rightarrow> nat \<Rightarrow> nat option \<Rightarrow> mstate \<Rightarrow> mstate list" where
  "rep_loop f greedy lo hi st =
     (let more = (if hi = Some 0 then []
                  else concat (map (\<lambda>st'. if lo = 0 \<and> \<not> length (rest_of st') < length (rest_of st) then []
                                           else rep_loop f greedy (lo - 1) (map_option (\<lambda>h. h - 1) hi) st')
                                   (f st)));
          stop = (if lo = 0 then [st] else [])
      in if greedy then more @ stop else stop @ more)"
  by pat_completeness auto
termination
  by (relation "measures [\<lambda>(f, g, lo, hi, st). lo, \<lambda>(f, g, lo, hi, st). length (rest_of st)]") auto

primrec rmatch :: "regex \<Rightarrow> bool \<Rightarrow> mstate \<Rightarrow> mstate list" where
  "rmatch (Lit c) ci st = step1 (\<lambda>x. x = of_char c \<or> (ci \<and> swap_case x = of_char c)) st"
| "rmatch (Cls items) ci st = step1 (cls_mem ci items) st"
| "rmatch (NCls items) ci st = step1 (\<lambda>x. \<not> cls_mem ci items x) st"
| "rmatch Dot ci st = step1 (\<lambda>x. \<not> is_line_term x) st"
| "rmatch Bol ci st = (case st of (i, p, r, cs) \<Rightarrow> if i = 0 then [st] else [])"
| "rmatch Eol ci st = (case st of (i, p, r, cs) \<Rightarrow> if r = [] then [st] else [])"
| "rmatch WordB ci st = (case st of (i, p, r, cs) \<Rightarrow> if at_word_boundary p r then [st] else [])"
| "rmatch Eps ci st = [st]"
| "rmatch (Seq a b) ci st = concat (map (rmatch b ci) (rmatch a ci st))"
| "rmatch (Alt a b) ci st = rmatch a ci st @ rmatch b ci st"
| "rmatch (Rep lo hi greedy a) ci st = rep_loop (rmatch a ci) greedy lo hi st"
| "rmatch (Grp n a) ci st = (case st of (i, p, r, cs) \<Rightarrow>
     map (\<lambda>(j, p', r', cs'). (j, p', r', (n, take (j - i) r) # cs')) (rmatch a ci st))"
| "rmatch (Bref n) ci st = (case st of (i, p, r, cs) \<Rightarrow>
     (case map_of cs n of None \<Rightarrow> [st] | Some w \<Rightarrow> match_text ci w st))"
| "rmatch (Txt w) ci st = match_text ci w st"


abbreviation Star :: "regex \<Rightarrow> regex" where "Star a \<equiv> Rep 0 None True a"
abbreviation Plus :: "regex \<Rightarrow> regex" where "Plus a \<equiv> Rep 1 None True a"
abbreviation Opt :: "regex \<Rightarrow> regex" where "Opt a \<equiv> Rep 0 (Some 1) True a"
abbreviation LazyStar :: "regex \<Rightarrow> regex" where "LazyStar a \<equiv> Rep 0 None False a"
abbreviation LazyPlus :: "regex \<Rightarrow> regex" where "LazyPlus a \<equiv> Rep 1 None False a"
abbreviation AtLeast :: "nat \<Rightarrow> regex \<Rightarrow> regex" where "AtLeast n a \<equiv> Rep n None True a"
abbreviation Between :: "nat \<Rightarrow> nat \<Rightarrow> regex \<Rightarrow> regex" where "Between n m a \<equiv> Rep n (Some m) True a"

fun seq :: "regex list \<Rightarrow> regex" where
  "seq [] = Eps"
| "seq [a] = a"
| "seq (a # b # bs) = Seq a (seq (b # bs))"

fun alts :: "regex list \<Rightarrow> regex" where
  "alts [] = Eps"
| "alts [a] = a"
| "alts (a # b # bs) = Alt a (alts (b # bs))"

definition str :: "string \<Rightarrow> regex" where
  "str cs = Txt (js cs)"

text \<open>\<open>search\<close> is one call of \<open>exec\<close>: the first index from \<open>i\<close> on at which the expression
  matches, with the matcher's first result there.\<close>

fun search :: "regex \<Rightarrow> bool \<Rightarrow> nat \<Rightarrow> int option \<Rightarrow> int list \<Rightarrow> (nat \<times> mstate) option" where
  "search r ci i p [] = (case rmatch r ci (i, p, [], []) of [] \<Rightarrow> None | m # _ \<Rightarrow> Some (i, m))"
| "search r ci i p (x # xs) =
     (case rmatch r ci (i, p, x # xs, []) of
        [] \<Rightarrow> search r ci (Suc i) (Some x) xs
      | m # _ \<Rightarrow> Some (i, m))"

text \<open>\<open>s.match(re)\<close> without the flag \<open>g\<close>: the matched text and the captures.\<close>

definition rx_match :: "regex \<Rightarrow> bool \<Rightarrow> int list \<Rightarrow> (int list \<times> (nat \<times> int list) list) option" where
  "rx_match r ci s =
     (case search r ci 0 None s of
        None \<Rightarrow> None
      | Some (a, (b, p, s', cs)) \<Rightarrow> Some (take (b - a) (drop a s), cs))"

definition rx_test :: "regex \<Rightarrow> bool \<Rightarrow> int list \<Rightarrow> bool" where
  "rx_test r ci s = (search r ci 0 None s \<noteq> None)"

text \<open>A capture group that took no part in the match is \<open>undefined\<close>: \<open>None\<close>.\<close>

definition grp :: "(nat \<times> int list) list \<Rightarrow> nat \<Rightarrow> int list option" where
  "grp cs n = map_of cs n"

definition grp_or_empty :: "(nat \<times> int list) list \<Rightarrow> nat \<Rightarrow> int list" where
  "grp_or_empty cs n = (case map_of cs n of None \<Rightarrow> [] | Some w \<Rightarrow> w)"

text \<open>\<open>s.replace(re, f)\<close> without the flag \<open>g\<close>: the first match only.\<close>

definition replace_first :: "regex \<Rightarrow> bool \<Rightarrow> (int list \<Rightarrow> (nat \<times> int list) list \<Rightarrow> int list) \<Rightarrow> int list \<Rightarrow> int list" where
  "replace_first r ci f s =
     (case search r ci 0 None s of
        None \<Rightarrow> s
      | Some (a, (b, p, s', cs)) \<Rightarrow> take a s @ f (take (b - a) (drop a s)) cs @ drop b s)"

text \<open>
  \<open>s.replace(re, f)\<close> with the flag \<open>g\<close>. The scan tries the expression at every index from
  \<open>lastIndex\<close> on; after a match it resumes at the end of the match (\<open>skip\<close> counts the code
  units of the match that are still to be passed over), after an empty match one index
  further. Text between matches is copied.
\<close>

fun gsub :: "regex \<Rightarrow> bool \<Rightarrow> (int list \<Rightarrow> (nat \<times> int list) list \<Rightarrow> int list) \<Rightarrow> nat \<Rightarrow> int option \<Rightarrow> nat \<Rightarrow> int list \<Rightarrow> int list" where
  "gsub r ci f i p skip [] =
     (if 0 < skip then []
      else case rmatch r ci (i, p, [], []) of [] \<Rightarrow> [] | (b, p', s', cs) # _ \<Rightarrow> f [] cs)"
| "gsub r ci f i p skip (x # xs) =
     (if 0 < skip then gsub r ci f (Suc i) (Some x) (skip - 1) xs
      else case rmatch r ci (i, p, x # xs, []) of
             [] \<Rightarrow> x # gsub r ci f (Suc i) (Some x) 0 xs
           | (b, p', s', cs) # _ \<Rightarrow>
               f (take (b - i) (x # xs)) cs @
                 (if b = i then x # gsub r ci f (Suc i) (Some x) 0 xs
                  else gsub r ci f (Suc i) (Some x) (b - i - 1) xs))"

definition replace_all :: "regex \<Rightarrow> bool \<Rightarrow> (int list \<Rightarrow> (nat \<times> int list) list \<Rightarrow> int list) \<Rightarrow> int list \<Rightarrow> int list" where
  "replace_all r ci f s = gsub r ci f 0 None 0 s"

section \<open>String methods\<close>

definition trim :: "int list \<Rightarrow> int list" where
  "trim s = rev (dropWhile is_space (rev (dropWhile is_space s)))"

text \<open>
  \<open>s.toLowerCase()\<close>: the string is read as code points (a high surrogate followed by a low
  surrogate is one code point), every code point is replaced by its lowercase mapping, and
  the result is written back as code units. The mapping is that of the Unicode Character
  Database, version 14.0, without a locale: the simple lowercase mappings, given below as
  runs (first, last, step, offset) in which every \<open>step\<close>-th code point from \<open>first\<close> on is moved
  by \<open>offset\<close>; U+0130 gives U+0069 U+0307; U+03A3 gives U+03C2 in the context \<open>Final_Sigma\<close>
  (after a cased letter and any number of case-ignorable characters, and not before any
  number of case-ignorable characters and a cased letter) and U+03C3 elsewhere.
\<close>

fun code_points :: "int list \<Rightarrow> int list" where
  "code_points [] = []"
| "code_points [x] = [x]"
| "code_points (x # y # ys) =
     (if 55296 \<le> x \<and> x \<le> 56319 \<and> 56320 \<le> y \<and> y \<le> 57343
      then (65536 + (x - 55296) * 1024 + (y - 56320)) # code_points ys
      else x # code_points (y # ys))"

definition code_units :: "int \<Rightarrow> int list" where
  "code_units c = (if c < 65536 then [c] else [55296 + (c - 65536) div 1024, 56320 + (c - 65536) mod 1024])"

definition lowercase_runs :: "(int \<times> int \<times> int \<times> int) list" where
  "lowercase_runs = [
     (65, 90, 1, 32), (192, 214, 1, 32), (216, 222, 1, 32), (256, 302, 2, 1),
     (306, 310, 2, 1), (313, 327, 2, 1), (330, 374, 2, 1), (376, 376, 1, -121),
     (377, 381, 2, 1), (385, 385, 1, 210), (386, 388, 2, 1), (390, 390, 1, 206),
     (391, 391, 1, 1), (393, 394, 1, 205), (395, 395, 1, 1), (398, 398, 1, 79),
     (399, 399, 1, 202), (400, 400, 1, 203), (401, 401, 1, 1), (403, 403, 1, 205),
     (404, 404, 1, 207), (406, 406, 1, 211), (407, 407, 1, 209), (408, 408, 1, 1),
     (412, 412, 1, 211), (413, 413, 1, 213), (415, 415, 1, 214), (416, 420, 2, 1),
     (422, 422, 1, 218), (423, 423, 1, 1), (425, 425, 1, 218), (428, 428, 1, 1),
     (430, 430, 1, 218), (431, 431, 1, 1), (433, 434, 1, 217), (435, 437, 2, 1),
     (439, 439, 1, 219), (440, 440, 1, 1), (444, 444, 1, 1), (452, 452, 1, 2),
     (453, 453, 1, 1), (455, 455, 1, 2), (456, 456, 1, 1), (458, 458, 1, 2),
     (459, 475, 2, 1), (478, 494, 2, 1), (497, 497, 1, 2), (498, 500, 2, 1),
     (502, 502, 1, -97), (503, 503, 1, -56), (504, 542, 2, 1), (544, 544, 1, -130),
     (546, 562, 2, 1), (570, 570, 1, 10795), (571, 571, 1, 1), (573, 573, 1, -163),
     (574, 574, 1, 10792), (577, 577, 1, 1), (579, 579, 1, -195), (580, 580, 1, 69),
     (581, 581, 1, 71), (582, 590, 2, 1), (880, 882, 2, 1), (886, 886, 1, 1),
     (895, 895, 1, 116), (902, 902, 1, 38), (904, 906, 1, 37), (908, 908, 1, 64),
     (910, 911, 1, 63), (913, 929, 1, 32), (932, 939, 1, 32), (975, 975, 1, 8),
     (984, 1006, 2, 1), (1012, 1012, 1, -60), (1015, 1015, 1, 1), (1017, 1017, 1, -7),
     (1018, 1018, 1, 1), (1021, 1023, 1, -130), (1024, 1039, 1, 80), (1040, 1071, 1, 32),
     (1120, 1152, 2, 1), (1162, 1214, 2, 1), (1216, 1216, 1, 15), (1217, 1229, 2, 1),
     (1232, 1326, 2, 1), (1329, 1366, 1, 48), (4256, 4293, 1, 7264), (4295, 4295, 1, 7264),
     (4301, 4301, 1, 7264), (5024, 5103, 1, 38864), (5104, 5109, 1, 8), (7312, 7354, 1, -3008),
     (7357, 7359, 1, -3008), (7680, 7828, 2, 1), (7838, 7838, 1, -7615), (7840, 7934, 2, 1),
     (7944, 7951, 1, -8), (7960, 7965, 1, -8), (7976, 7983, 1, -8), (7992, 7999, 1, -8),
     (8008, 8013, 1, -8), (8025, 8031, 2, -8), (8040, 8047, 1, -8), (8072, 8079, 1, -8),
     (8088, 8095, 1, -8), (8104, 8111, 1, -8), (8120, 8121, 1, -8), (8122, 8123, 1, -74),
     (8124, 8124, 1, -9), (8136, 8139, 1, -86), (8140, 8140, 1, -9), (8152, 8153, 1, -8),
     (8154, 8155, 1, -100), (8168, 8169, 1, -8), (8170, 8171, 1, -112), (8172, 8172, 1, -7),
     (8184, 8185, 1, -128), (8186, 8187, 1, -126), (8188, 8188, 1, -9), (8486, 8486, 1, -7517),
     (8490, 8490, 1, -8383), (8491, 8491, 1, -8262), (8498, 8498, 1, 28), (8544, 8559, 1, 16),
     (8579, 8579, 1, 1), (9398, 9423, 1, 26), (11264, 11311, 1, 48), (11360, 11360, 1, 1),
     (11362, 11362, 1, -10743), (11363, 11363, 1, -3814), (11364, 11364, 1, -10727), (11367, 11371, 2, 1),
     (11373, 11373, 1, -10780), (11374, 11374, 1, -10749), (11375, 11375, 1, -10783), (11376, 11376, 1, -10782),
     (11378, 11378, 1, 1), (11381, 11381, 1, 1), (11390, 11391, 1, -10815), (11392, 11490, 2, 1),
     (11499, 11501, 2, 1), (11506, 11506, 1, 1), (42560, 42604, 2, 1), (42624, 42650, 2, 1),
     (42786, 42798, 2, 1), (42802, 42862, 2, 1), (42873, 42875, 2, 1), (42877, 42877, 1, -35332),
     (42878, 42886, 2, 1), (42891, 42891, 1, 1), (42893, 42893, 1, -42280), (42896, 42898, 2, 1),
     (42902, 42920, 2, 1), (42922, 42922, 1, -42308), (42923, 42923, 1, -42319), (42924, 42924, 1, -42315),
     (42925, 42925, 1, -42305), (42926, 42926, 1, -42308), (42928, 42928, 1, -42258), (42929, 42929, 1, -42282),
     (42930, 42930, 1, -42261), (42931, 42931, 1, 928), (42932, 42946, 2, 1), (42948, 42948, 1, -48),
     (42949, 42949, 1, -42307), (42950, 42950, 1, -35384), (42951, 42953, 2, 1), (42960, 42960, 1, 1),
     (42966, 42968, 2, 1), (42997, 42997, 1, 1), (65313, 65338, 1, 32), (66560, 66599, 1, 40),
     (66736, 66771, 1, 40), (66928, 66938, 1, 39), (66940, 66954, 1, 39), (66956, 66962, 1, 39),
     (66964, 66965, 1, 39), (68736, 68786, 1, 64), (71840, 71871, 1, 32), (93760, 93791, 1, 32),
     (125184, 125217, 1, 34)]"

fun lowercase_in :: "(int \<times> int \<times> int \<times> int) list \<Rightarrow> int \<Rightarrow> int" where
  "lowercase_in [] c = c"
| "lowercase_in ((lo, hi, step, d) # rs) c =
     (if c < lo then c
      else if c \<le> hi then (if (c - lo) mod step = 0 then c + d else c)
      else lowercase_in rs c)"

fun in_ranges :: "(int \<times> int) list \<Rightarrow> int \<Rightarrow> bool" where
  "in_ranges [] c = False"
| "in_ranges ((lo, hi) # rs) c = (if c < lo then False else if c \<le> hi then True else in_ranges rs c)"

text \<open>The code points with the property \<open>Case_Ignorable\<close>, and those with the property \<open>Cased\<close>
  that are not case-ignorable, as ranges.\<close>

definition case_ignorable_ranges :: "(int \<times> int) list" where
  "case_ignorable_ranges = [
     (39, 39), (46, 46), (58, 58), (94, 94), (96, 96), (168, 168),
     (173, 173), (175, 175), (180, 180), (183, 184), (688, 879), (884, 885),
     (890, 890), (900, 901), (903, 903), (1155, 1161), (1369, 1369), (1375, 1375),
     (1425, 1469), (1471, 1471), (1473, 1474), (1476, 1477), (1479, 1479), (1524, 1524),
     (1536, 1541), (1552, 1562), (1564, 1564), (1600, 1600), (1611, 1631), (1648, 1648),
     (1750, 1757), (1759, 1768), (1770, 1773), (1807, 1807), (1809, 1809), (1840, 1866),
     (1958, 1968), (2027, 2037), (2042, 2042), (2045, 2045), (2070, 2093), (2137, 2139),
     (2184, 2184), (2192, 2193), (2200, 2207), (2249, 2306), (2362, 2362), (2364, 2364),
     (2369, 2376), (2381, 2381), (2385, 2391), (2402, 2403), (2417, 2417), (2433, 2433),
     (2492, 2492), (2497, 2500), (2509, 2509), (2530, 2531), (2558, 2558), (2561, 2562),
     (2620, 2620), (2625, 2626), (2631, 2632), (2635, 2637), (2641, 2641), (2672, 2673),
     (2677, 2677), (2689, 2690), (2748, 2748), (2753, 2757), (2759, 2760), (2765, 2765),
     (2786, 2787), (2810, 2815), (2817, 2817), (2876, 2876), (2879, 2879), (2881, 2884),
     (2893, 2893), (2901, 2902), (2914, 2915), (2946, 2946), (3008, 3008), (3021, 3021),
     (3072, 3072), (3076, 3076), (3132, 3132), (3134, 3136), (3142, 3144), (3146, 3149),
     (3157, 3158), (3170, 3171), (3201, 3201), (3260, 3260), (3263, 3263), (3270, 3270),
     (3276, 3277), (3298, 3299), (3328, 3329), (3387, 3388), (3393, 3396), (3405, 3405),
     (3426, 3427), (3457, 3457), (3530, 3530), (3538, 3540), (3542, 3542), (3633, 3633),
     (3636, 3642), (3654, 3662), (3761, 3761), (3764, 3772), (3782, 3782), (3784, 3789),
     (3864, 3865), (3893, 3893), (3895, 3895), (3897, 3897), (3953, 3966), (3968, 3972),
     (3974, 3975), (3981, 3991), (3993, 4028), (4038, 4038), (4141, 4144), (4146, 4151),
     (4153, 4154), (4157, 4158), (4184, 4185), (4190, 4192), (4209, 4212), (4226, 4226),
     (4229, 4230), (4237, 4237), (4253, 4253), (4348, 4348), (4957, 4959), (5906, 5908),
     (5938, 5939), (5970, 5971), (6002, 6003), (6068, 6069), (6071, 6077), (6086, 6086),
     (6089, 6099), (6103, 6103), (6109, 6109), (6155, 6159), (6211, 6211), (6277, 6278),
     (6313, 6313), (6432, 6434), (6439, 6440), (6450, 6450), (6457, 6459), (6679, 6680),
     (6683, 6683), (6742, 6742), (6744, 6750), (6752, 6752), (6754, 6754), (6757, 6764),
     (6771, 6780), (6783, 6783), (6823, 6823), (6832, 6862), (6912, 6915), (6964, 6964),
     (6966, 6970), (6972, 6972), (6978, 6978), (7019, 7027), (7040, 7041), (7074, 7077),
     (7080, 7081), (7083, 7085), (7142, 7142), (7144, 7145), (7149, 7149), (7151, 7153),
     (7212, 7219), (7222, 7223), (7288, 7293), (7376, 7378), (7380, 7392), (7394, 7400),
     (7405, 7405), (7412, 7412), (7416, 7417), (7468, 7530), (7544, 7544), (7579, 7679),
     (8125, 8125), (8127, 8129), (8141, 8143), (8157, 8159), (8173, 8175), (8189, 8190),
     (8203, 8207), (8216, 8217), (8228, 8228), (8231, 8231), (8234, 8238), (8288, 8292),
     (8294, 8303), (8305, 8305), (8319, 8319), (8336, 8348), (8400, 8432), (11388, 11389),
     (11503, 11505), (11631, 11631), (11647, 11647), (11744, 11775), (11823, 11823), (12293, 12293),
     (12330, 12333), (12337, 12341), (12347, 12347), (12441, 12446), (12540, 12542), (40981, 40981),
     (42232, 42237), (42508, 42508), (42607, 42610), (42612, 42621), (42623, 42623), (42652, 42655),
     (42736, 42737), (42752, 42785), (42864, 42864), (42888, 42890), (42994, 42996), (43000, 43001),
     (43010, 43010), (43014, 43014), (43019, 43019), (43045, 43046), (43052, 43052), (43204, 43205),
     (43232, 43249), (43263, 43263), (43302, 43309), (43335, 43345), (43392, 43394), (43443, 43443),
     (43446, 43449), (43452, 43453), (43471, 43471), (43493, 43494), (43561, 43566), (43569, 43570),
     (43573, 43574), (43587, 43587), (43596, 43596), (43632, 43632), (43644, 43644), (43696, 43696),
     (43698, 43700), (43703, 43704), (43710, 43711), (43713, 43713), (43741, 43741), (43756, 43757),
     (43763, 43764), (43766, 43766), (43867, 43871), (43881, 43883), (44005, 44005), (44008, 44008),
     (44013, 44013), (64286, 64286), (64434, 64450), (65024, 65039), (65043, 65043), (65056, 65071),
     (65106, 65106), (65109, 65109), (65279, 65279), (65287, 65287), (65294, 65294), (65306, 65306),
     (65342, 65342), (65344, 65344), (65392, 65392), (65438, 65439), (65507, 65507), (65529, 65531),
     (66045, 66045), (66272, 66272), (66422, 66426), (67456, 67461), (67463, 67504), (67506, 67514),
     (68097, 68099), (68101, 68102), (68108, 68111), (68152, 68154), (68159, 68159), (68325, 68326),
     (68900, 68903), (69291, 69292), (69446, 69456), (69506, 69509), (69633, 69633), (69688, 69702),
     (69744, 69744), (69747, 69748), (69759, 69761), (69811, 69814), (69817, 69818), (69821, 69821),
     (69826, 69826), (69837, 69837), (69888, 69890), (69927, 69931), (69933, 69940), (70003, 70003),
     (70016, 70017), (70070, 70078), (70089, 70092), (70095, 70095), (70191, 70193), (70196, 70196),
     (70198, 70199), (70206, 70206), (70367, 70367), (70371, 70378), (70400, 70401), (70459, 70460),
     (70464, 70464), (70502, 70508), (70512, 70516), (70712, 70719), (70722, 70724), (70726, 70726),
     (70750, 70750), (70835, 70840), (70842, 70842), (70847, 70848), (70850, 70851), (71090, 71093),
     (71100, 71101), (71103, 71104), (71132, 71133), (71219, 71226), (71229, 71229), (71231, 71232),
     (71339, 71339), (71341, 71341), (71344, 71349), (71351, 71351), (71453, 71455), (71458, 71461),
     (71463, 71467), (71727, 71735), (71737, 71738), (71995, 71996), (71998, 71998), (72003, 72003),
     (72148, 72151), (72154, 72155), (72160, 72160), (72193, 72202), (72243, 72248), (72251, 72254),
     (72263, 72263), (72273, 72278), (72281, 72283), (72330, 72342), (72344, 72345), (72752, 72758),
     (72760, 72765), (72767, 72767), (72850, 72871), (72874, 72880), (72882, 72883), (72885, 72886),
     (73009, 73014), (73018, 73018), (73020, 73021), (73023, 73029), (73031, 73031), (73104, 73105),
     (73109, 73109), (73111, 73111), (73459, 73460), (78896, 78904), (92912, 92916), (92976, 92982),
     (92992, 92995), (94031, 94031), (94095, 94111), (94176, 94177), (94179, 94180), (110576, 110579),
     (110581, 110587), (110589, 110590), (113821, 113822), (113824, 113827), (118528, 118573), (118576, 118598),
     (119143, 119145), (119155, 119170), (119173, 119179), (119210, 119213), (119362, 119364), (121344, 121398),
     (121403, 121452), (121461, 121461), (121476, 121476), (121499, 121503), (121505, 121519), (122880, 122886),
     (122888, 122904), (122907, 122913), (122915, 122916), (122918, 122922), (123184, 123197), (123566, 123566),
     (123628, 123631), (125136, 125142), (125252, 125259), (127995, 127999), (917505, 917505), (917536, 917631),
     (917760, 917999)]"

definition cased_ranges :: "(int \<times> int) list" where
  "cased_ranges = [
     (65, 90), (97, 122), (170, 170), (181, 181), (186, 186), (192, 214),
     (216, 246), (248, 442), (444, 447), (452, 659), (661, 687), (880, 883),
     (886, 887), (891, 893), (895, 895), (902, 902), (904, 906), (908, 908),
     (910, 929), (931, 1013), (1015, 1153), (1162, 1327), (1329, 1366), (1376, 1416),
     (4256, 4293), (4295, 4295), (4301, 4301), (4304, 4346), (4349, 4351), (5024, 5109),
     (5112, 5117), (7296, 7304), (7312, 7354), (7357, 7359), (7424, 7467), (7531, 7543),
     (7545, 7578), (7680, 7957), (7960, 7965), (7968, 8005), (8008, 8013), (8016, 8023),
     (8025, 8025), (8027, 8027), (8029, 8029), (8031, 8061), (8064, 8116), (8118, 8124),
     (8126, 8126), (8130, 8132), (8134, 8140), (8144, 8147), (8150, 8155), (8160, 8172),
     (8178, 8180), (8182, 8188), (8450, 8450), (8455, 8455), (8458, 8467), (8469, 8469),
     (8473, 8477), (8484, 8484), (8486, 8486), (8488, 8488), (8490, 8493), (8495, 8500),
     (8505, 8505), (8508, 8511), (8517, 8521), (8526, 8526), (8544, 8575), (8579, 8580),
     (9398, 9449), (11264, 11387), (11390, 11492), (11499, 11502), (11506, 11507), (11520, 11557),
     (11559, 11559), (11565, 11565), (42560, 42605), (42624, 42651), (42786, 42863), (42865, 42887),
     (42891, 42894), (42896, 42954), (42960, 42961), (42963, 42963), (42965, 42969), (42997, 42998),
     (43002, 43002), (43824, 43866), (43872, 43880), (43888, 43967), (64256, 64262), (64275, 64279),
     (65313, 65338), (65345, 65370), (66560, 66639), (66736, 66771), (66776, 66811), (66928, 66938),
     (66940, 66954), (66956, 66962), (66964, 66965), (66967, 66977), (66979, 66993), (66995, 67001),
     (67003, 67004), (68736, 68786), (68800, 68850), (71840, 71903), (93760, 93823), (119808, 119892),
     (119894, 119964), (119966, 119967), (119970, 119970), (119973, 119974), (119977, 119980), (119982, 119993),
     (119995, 119995), (119997, 120003), (120005, 120069), (120071, 120074), (120077, 120084), (120086, 120092),
     (120094, 120121), (120123, 120126), (120128, 120132), (120134, 120134), (120138, 120144), (120146, 120485),
     (120488, 120512), (120514, 120538), (120540, 120570), (120572, 120596), (120598, 120628), (120630, 120654),
     (120656, 120686), (120688, 120712), (120714, 120744), (120746, 120770), (120772, 120779), (122624, 122633),
     (122635, 122654), (125184, 125251), (127280, 127305), (127312, 127337), (127344, 127369)]"

definition after_cased :: "int list \<Rightarrow> bool" where
  \<comment> \<open>the first code point that is not case-ignorable exists and is cased\<close>
  "after_cased cs = (case dropWhile (in_ranges case_ignorable_ranges) cs of
                       [] \<Rightarrow> False
                     | c # _ \<Rightarrow> in_ranges cased_ranges c)"

text \<open>\<open>seen\<close> holds the code points already passed, the nearest first.\<close>

fun lowercase_points :: "int list \<Rightarrow> int list \<Rightarrow> int list" where
  "lowercase_points seen [] = []"
| "lowercase_points seen (c # cs) =
     (if c = 931 then [if after_cased seen \<and> \<not> after_cased cs then 962 else 963]
      else if c = 304 then [105, 775]
      else [lowercase_in lowercase_runs c])
     @ lowercase_points (c # seen) cs"

definition toLowerCase :: "int list \<Rightarrow> int list" where
  "toLowerCase s = concat (map code_units (lowercase_points [] (code_points s)))"

fun starts_with :: "int list \<Rightarrow> int list \<Rightarrow> bool" where
  "starts_with s [] = True"
| "starts_with [] (w # ws) = False"
| "starts_with (x # xs) (w # ws) = (x = w \<and> starts_with xs ws)"

definition ends_with :: "int list \<Rightarrow> int list \<Rightarrow> bool" where
  "ends_with s w = starts_with (rev s) (rev w)"

fun str_includes :: "int list \<Rightarrow> int list \<Rightarrow> bool" where
  "str_includes [] w = (w = [])"
| "str_includes (x # xs) w = (starts_with (x # xs) w \<or> str_includes xs w)"

text \<open>\<open>s.split(c)\<close> for a separator of one code unit.\<close>

fun split_on :: "int \<Rightarrow> int list \<Rightarrow> int list list" where
  "split_on c [] = [[]]"
| "split_on c (x # xs) =
     (if x = c then [] # split_on c xs
      else (case split_on c xs of [] \<Rightarrow> [[x]] | w # ws \<Rightarrow> (x # w) # ws))"

fun join :: "int list \<Rightarrow> int list list \<Rightarrow> int list" where
  "join sep [] = []"
| "join sep [w] = w"
| "join sep (w # v # vs) = w @ sep @ join sep (v # vs)"

text \<open>\<open>s.split(key).join(html)\<close> for a separator that is not empty.\<close>

function split_join :: "int list \<Rightarrow> int list \<Rightarrow> int list \<Rightarrow> int list" where
  "split_join key html [] = []"
| "split_join key html (x # xs) =
     (if key \<noteq> [] \<and> starts_with (x # xs) key
      then html @ split_join key html (drop (length key) (x # xs))
      else x # split_join key html xs)"
  by pat_completeness auto
termination
  by (relation "measure (\<lambda>(key, html, s). length s)") auto

function digits10 :: "nat \<Rightarrow> int list" where
  "digits10 n = (if n < 10 then [48 + int n] else digits10 (n div 10) @ [48 + int (n mod 10)])"
  by pat_completeness auto
termination
  by (relation "measure (\<lambda>n. n)") auto


section \<open>Objects used as dictionaries\<close>

text \<open>
  \<open>footnoteDefs\<close> and \<open>abbrDefs\<close> are plain objects with string values. An assignment to the
  key \<open>__proto__\<close> with a string value changes nothing; any other key is created at the end or
  overwritten in place. \<open>Object.keys\<close> lists the array indices in ascending numeric order
  first, then the other keys in the order of their creation.
\<close>

type_synonym jsobj = "(int list \<times> int list) list"

fun alist_set :: "'k \<Rightarrow> 'v \<Rightarrow> ('k \<times> 'v) list \<Rightarrow> ('k \<times> 'v) list" where
  "alist_set k v [] = [(k, v)]"
| "alist_set k v ((k', v') # kvs) = (if k = k' then (k, v) # kvs else (k', v') # alist_set k v kvs)"

definition obj_set :: "int list \<Rightarrow> int list \<Rightarrow> jsobj \<Rightarrow> jsobj" where
  "obj_set k v obj = (if k = js ''__proto__'' then obj else alist_set k v obj)"

definition decimal_value :: "int list \<Rightarrow> int" where
  "decimal_value k = foldl (\<lambda>n d. 10 * n + (d - 48)) 0 k"

definition is_array_index :: "int list \<Rightarrow> bool" where
  "is_array_index k = (k \<noteq> [] \<and> list_all is_digit k \<and> (k = [48] \<or> hd k \<noteq> 48)
      \<and> length k \<le> 10 \<and> decimal_value k \<le> 4294967294)"

definition object_keys :: "('k \<Rightarrow> int list) \<Rightarrow> ('k \<times> 'v) list \<Rightarrow> 'k list" where
  "object_keys name obj =
     sort_key (\<lambda>k. decimal_value (name k)) (filter (\<lambda>k. is_array_index (name k)) (map fst obj))
     @ filter (\<lambda>k. \<not> is_array_index (name k)) (map fst obj)"

definition object_prototype_names :: "int list list" where
  "object_prototype_names = map js [''constructor'', ''__defineGetter__'', ''__defineSetter__'',
     ''hasOwnProperty'', ''__lookupGetter__'', ''__lookupSetter__'', ''isPrototypeOf'',
     ''propertyIsEnumerable'', ''toString'', ''valueOf'', ''__proto__'', ''toLocaleString'']"

text \<open>
  \<open>linkDefs\<close> is a plain object whose values are objects \<open>{ url, title }\<close>. An assignment to
  the key \<open>__proto__\<close> replaces the prototype of \<open>linkDefs\<close> by the assigned object. A read
  \<open>linkDefs[key]\<close> finds an own property, or walks the prototype chain: the assigned
  prototype (whose properties are \<open>url\<close> and \<open>title\<close>), then \<open>Object.prototype\<close>.
\<close>

record linkdef =
  url :: "int list"
  title :: "int list option"

record linkdefs =
  own :: "(int list \<times> linkdef) list"
  proto :: "linkdef option"

datatype linkval =
    Undefined
  | Def linkdef
  | NotADef   \<comment> \<open>a truthy value that has no property \<open>url\<close>: a function, \<open>Object.prototype\<close>, a string\<close>

definition no_linkdefs :: linkdefs where
  "no_linkdefs = \<lparr>own = [], proto = None\<rparr>"

definition link_set :: "int list \<Rightarrow> linkdef \<Rightarrow> linkdefs \<Rightarrow> linkdefs" where
  "link_set k d L = (if k = js ''__proto__'' then L\<lparr>proto := Some d\<rparr> else L\<lparr>own := alist_set k d (own L)\<rparr>)"

definition truthy_string :: "int list \<Rightarrow> linkval" where
  "truthy_string w = (if w = [] then Undefined else NotADef)"

definition object_prototype_get :: "int list \<Rightarrow> linkval" where
  "object_prototype_get k = (if k \<in> set object_prototype_names then NotADef else Undefined)"

definition link_get :: "linkdefs \<Rightarrow> int list \<Rightarrow> linkval" where
  "link_get L k =
     (if k = js ''__proto__'' then (case proto L of Some d \<Rightarrow> Def d | None \<Rightarrow> NotADef)
      else case map_of (own L) k of
             Some d \<Rightarrow> Def d
           | None \<Rightarrow>
               (case proto L of
                  None \<Rightarrow> object_prototype_get k
                | Some d \<Rightarrow>
                    if k = js ''url'' then truthy_string (url d)
                    else if k = js ''title'' then (case title d of None \<Rightarrow> Undefined | Some t \<Rightarrow> truthy_string t)
                    else object_prototype_get k))"

section \<open>Escaping and slugs\<close>

definition escapeHtml :: "int list \<Rightarrow> int list" where
  "escapeHtml s =
     replace_all (Lit CHR ''>'') False (\<lambda>m cs. js ''&gt;'')
       (replace_all (Lit CHR ''<'') False (\<lambda>m cs. js ''&lt;'')
         (replace_all (Lit CHR ''&'') False (\<lambda>m cs. js ''&amp;'') s))"

definition escapeHtmlAttr :: "int list \<Rightarrow> int list" where
  "escapeHtmlAttr s = replace_all (Lit (CHR 0x22)) False (\<lambda>m cs. js ''&quot;'') (escapeHtml s)"

text \<open>\<^verbatim>\<open>/\\([()])/g\<close>\<close>

definition re_md_url_escape :: regex where
  "re_md_url_escape = seq [Lit (CHR 0x5C), Grp 1 (Cls [Ch CHR ''('', Ch CHR '')''])]"

definition unescapeMdUrl :: "int list \<Rightarrow> int list" where
  "unescapeMdUrl s = replace_all re_md_url_escape False (\<lambda>m cs. grp_or_empty cs 1) s"

text \<open>\<^verbatim>\<open>/\r\n?/g\<close>\<close>

definition re_newline :: regex where
  "re_newline = seq [Lit (CHR 0x0D), Opt (Lit (CHR 0x0A))]"

definition normalize_newlines :: "int list \<Rightarrow> int list" where
  "normalize_newlines s = replace_all re_newline False (\<lambda>m cs. [10]) s"

text \<open>\<^verbatim>\<open>/<[\/!]*?[^<>]*?>/g\<close>, \<^verbatim>\<open>/[^a-z0-9\s-]/g\<close>, \<^verbatim>\<open>/\s+/g\<close>, \<^verbatim>\<open>/-+/g\<close>\<close>

definition re_slug_tag :: regex where
  "re_slug_tag = seq [Lit CHR ''<'', LazyStar (Cls [Ch CHR ''/'', Ch CHR ''!'']),
                      LazyStar (NCls [Ch CHR ''<'', Ch CHR ''>'']), Lit CHR ''>'']"

definition re_slug_other :: regex where
  "re_slug_other = NCls [Rg CHR ''a'' CHR ''z'', Rg CHR ''0'' CHR ''9'', Sp, Ch CHR ''-'']"

definition slugify :: "int list \<Rightarrow> int list" where
  "slugify s =
     replace_all (Plus (Lit CHR ''-'')) False (\<lambda>m cs. js ''-'')
       (replace_all (Plus (Cls [Sp])) False (\<lambda>m cs. js ''-'')
         (replace_all re_slug_other False (\<lambda>m cs. [])
           (replace_all re_slug_tag False (\<lambda>m cs. [])
             (trim (toLowerCase s)))))"


section \<open>Definition extractor\<close>

datatype error =
    TypeError   \<comment> \<open>the exception of a property read on \<open>undefined\<close>\<close>
  | OutOfFuel   \<comment> \<open>not an outcome of the program: the recursion bound of the model was reached\<close>

record defs_result =
  cleaned :: "int list"
  linkDefs :: linkdefs
  footnoteDefs :: jsobj
  abbrDefs :: jsobj

text \<open>
  \<^verbatim>\<open>/^\[\^([^\]]+)\]:\s*(.*)$/\<close>, \<^verbatim>\<open>/^( {4,}|\t)/\<close>, \<^verbatim>\<open>/^( {4}|\t)/\<close>, \<^verbatim>\<open>/^\s*$/\<close>,
  \<^verbatim>\<open>/^\*\[([^\]]+)\]:\s+(.+)$/\<close>, \<^verbatim>\<open>/^\[([^\]]+)\]:\s*(\S+)(?:\s+"(.+?)")?\s*$/\<close>
\<close>

definition re_footnote_def :: regex where
  "re_footnote_def = seq [Bol, Lit CHR ''['', Lit CHR ''^'', Grp 1 (Plus (NCls [Ch CHR '']''])), Lit CHR '']'',
     Lit CHR '':'', Star (Cls [Sp]), Grp 2 (Star Dot), Eol]"

definition re_indent_code :: regex where
  "re_indent_code = seq [Bol, Grp 1 (Alt (AtLeast 4 (Lit CHR '' '')) (Lit (CHR 0x09)))]"

definition re_indent_strip :: regex where
  "re_indent_strip = seq [Bol, Grp 1 (Alt (Between 4 4 (Lit CHR '' '')) (Lit (CHR 0x09)))]"

definition re_blank :: regex where
  "re_blank = seq [Bol, Star (Cls [Sp]), Eol]"

definition re_abbr_def :: regex where
  "re_abbr_def = seq [Bol, Lit CHR ''*'', Lit CHR ''['', Grp 1 (Plus (NCls [Ch CHR '']''])), Lit CHR '']'',
     Lit CHR '':'', Plus (Cls [Sp]), Grp 2 (Plus Dot), Eol]"

definition re_link_def :: regex where
  "re_link_def = seq [Bol, Lit CHR ''['', Grp 1 (Plus (NCls [Ch CHR '']''])), Lit CHR '']'', Lit CHR '':'',
     Star (Cls [Sp]), Grp 2 (Plus (Cls [NSp])),
     Opt (seq [Plus (Cls [Sp]), Lit (CHR 0x22), Grp 3 (LazyPlus Dot), Lit (CHR 0x22)]),
     Star (Cls [Sp]), Eol]"

text \<open>The lines after a footnote definition that belong to it: indented lines lose one level
  of indentation, blank lines become empty.\<close>

fun footnote_cont :: "int list \<Rightarrow> int list list \<Rightarrow> int list \<times> int list list" where
  "footnote_cont acc [] = (acc, [])"
| "footnote_cont acc (l # ls) =
     (if rx_test re_indent_code False l
      then footnote_cont (acc @ [10] @ replace_first re_indent_strip False (\<lambda>m cs. []) l) ls
      else if rx_test re_blank False l then footnote_cont (acc @ [10]) ls
      else (acc, l # ls))"

lemma footnote_cont_length: "length (snd (footnote_cont acc ls)) \<le> length ls"
  by (induction ls arbitrary: acc) (auto intro: le_SucI)

function extract_loop :: "int list list \<Rightarrow> int list list \<Rightarrow> linkdefs \<Rightarrow> jsobj \<Rightarrow> jsobj
    \<Rightarrow> int list list \<times> linkdefs \<times> jsobj \<times> jsobj" where
  "extract_loop [] remaining L F A = (remaining, L, F, A)"
| "extract_loop (line # ls) remaining L F A =
     (case rx_match re_footnote_def False line of
        Some (m, cs) \<Rightarrow>
          extract_loop (snd (footnote_cont (grp_or_empty cs 2) ls)) remaining L
            (obj_set (grp_or_empty cs 1) (fst (footnote_cont (grp_or_empty cs 2) ls)) F) A
      | None \<Rightarrow>
          (case rx_match re_abbr_def False line of
             Some (m, cs) \<Rightarrow>
               extract_loop ls remaining L F (obj_set (grp_or_empty cs 1) (grp_or_empty cs 2) A)
           | None \<Rightarrow>
               (case rx_match re_link_def False line of
                  Some (m, cs) \<Rightarrow>
                    extract_loop ls remaining
                      (link_set (toLowerCase (grp_or_empty cs 1)) \<lparr>url = grp_or_empty cs 2, title = grp cs 3\<rparr> L) F A
                | None \<Rightarrow> extract_loop ls (remaining @ [line]) L F A)))"
  by pat_completeness auto
termination
  by (relation "measure (\<lambda>(ls, remaining, L, F, A). length ls)")
     (auto simp: footnote_cont_length less_Suc_eq_le)

definition extractDefinitions :: "int list \<Rightarrow> defs_result" where
  "extractDefinitions src =
     (case extract_loop (split_on 10 (normalize_newlines src)) [] no_linkdefs [] [] of
        (remaining, L, F, A) \<Rightarrow>
          \<lparr>cleaned = join [10] remaining, linkDefs = L, footnoteDefs = F, abbrDefs = A\<rparr>)"


section \<open>Placeholder vault\<close>

text \<open>The state of one call of \<open>renderMarkdown\<close>: the counter and the map of the vault (a
  \<open>Map\<close>, which keeps the order of insertion), and the headings collected so far.\<close>

record rstate =
  placeholderId :: nat
  placeholderMap :: "(int list \<times> int list) list"
  headings :: "(nat \<times> int list \<times> int list) list"

definition init_state :: rstate where
  "init_state = \<lparr>placeholderId = 0, placeholderMap = [], headings = []\<rparr>"

definition placeholder_key :: "nat \<Rightarrow> int list" where
  \<comment> \<open>U+E000, the decimal digits of the counter, U+E001\<close>
  "placeholder_key n = [57344] @ digits10 n @ [57345]"

definition makePlaceholder :: "int list \<Rightarrow> rstate \<Rightarrow> int list \<times> rstate" where
  "makePlaceholder html st =
     (placeholder_key (placeholderId st),
      st\<lparr>placeholderId := Suc (placeholderId st),
         placeholderMap := alist_set (placeholder_key (placeholderId st)) html (placeholderMap st)\<rparr>)"

definition restorePlaceholders :: "(int list \<times> int list) list \<Rightarrow> int list \<Rightarrow> int list" where
  "restorePlaceholders pm s = foldl (\<lambda>result (key, html). split_join key html result) s pm"

text \<open>The callback of a rule that stores its markup: it cannot fail.\<close>

definition protect :: "int list \<Rightarrow> rstate \<Rightarrow> error + (int list \<times> rstate)" where
  "protect html st = Inr (makePlaceholder html st)"

text \<open>\<open>s.replace(re, f)\<close> with the flag \<open>g\<close> and a callback that reads and writes the vault, and
  may throw. The scan is that of \<open>gsub\<close>; the callbacks run from left to right.\<close>

fun gsub_st :: "regex \<Rightarrow> bool \<Rightarrow> (int list \<Rightarrow> (nat \<times> int list) list \<Rightarrow> 's \<Rightarrow> error + (int list \<times> 's))
    \<Rightarrow> nat \<Rightarrow> int option \<Rightarrow> nat \<Rightarrow> int list \<Rightarrow> 's \<Rightarrow> error + (int list \<times> 's)" where
  "gsub_st r ci f i p skip [] st =
     (if 0 < skip then Inr ([], st)
      else case rmatch r ci (i, p, [], []) of
             [] \<Rightarrow> Inr ([], st)
           | (b, p', s', cs) # _ \<Rightarrow> f [] cs st)"
| "gsub_st r ci f i p skip (x # xs) st =
     (if 0 < skip then gsub_st r ci f (Suc i) (Some x) (skip - 1) xs st
      else case rmatch r ci (i, p, x # xs, []) of
             [] \<Rightarrow>
               (case gsub_st r ci f (Suc i) (Some x) 0 xs st of
                  Inl e \<Rightarrow> Inl e
                | Inr (out, st') \<Rightarrow> Inr (x # out, st'))
           | (b, p', s', cs) # _ \<Rightarrow>
               (case f (take (b - i) (x # xs)) cs st of
                  Inl e \<Rightarrow> Inl e
                | Inr (rep, st1) \<Rightarrow>
                    (case gsub_st r ci f (Suc i) (Some x) (if b = i then 0 else b - i - 1) xs st1 of
                       Inl e \<Rightarrow> Inl e
                     | Inr (out, st2) \<Rightarrow> Inr (rep @ (if b = i then [x] else []) @ out, st2))))"

definition replace_all_st :: "regex \<Rightarrow> bool \<Rightarrow> (int list \<Rightarrow> (nat \<times> int list) list \<Rightarrow> 's \<Rightarrow> error + (int list \<times> 's))
    \<Rightarrow> int list \<Rightarrow> 's \<Rightarrow> error + (int list \<times> 's)" where
  "replace_all_st r ci f s st = gsub_st r ci f 0 None 0 s st"


section \<open>Inline renderer\<close>

text \<open>The rules of \<open>renderInline\<close>, in the order of the source. Each is a global replacement
  on the text; \<open>ctx\<close> is the result of the definition extractor.\<close>

type_synonym rule = "int list \<Rightarrow> rstate \<Rightarrow> error + (int list \<times> rstate)"

fun run_rules :: "rule list \<Rightarrow> rule" where
  "run_rules [] s st = Inr (s, st)"
| "run_rules (r # rs) s st = (case r s st of Inl e \<Rightarrow> Inl e | Inr (s', st') \<Rightarrow> run_rules rs s' st')"

definition title_attr :: "int list option \<Rightarrow> int list" where
  \<comment> \<open>an attribute for a title that is neither \<open>undefined\<close> nor empty\<close>
  \<open>title_attr t = (case t of None \<Rightarrow> [] | Some w \<Rightarrow> if w = [] then [] else js '' title="'' @ escapeHtmlAttr w @ js ''"'')\<close>

text \<open>\<^verbatim>\<open>/\n/g\<close>\<close>

definition rule_br :: rule where
  \<open>rule_br = replace_all_st (Lit (CHR 0x0A)) False (\<lambda>m cs. protect (js ''<br class="block" />''))\<close>

text \<open>\<^verbatim>\<open>/\\([\\`*_{}\[\]()#+\-.!|>~:=])/g\<close>\<close>

definition re_escape :: regex where
  "re_escape = seq [Lit (CHR 0x5C), Grp 1 (Cls [Ch (CHR 0x5C), Ch (CHR 0x60), Ch CHR ''*'', Ch CHR ''_'',
     Ch CHR ''{'', Ch CHR ''}'', Ch CHR ''['', Ch CHR '']'', Ch CHR ''('', Ch CHR '')'', Ch CHR ''#'',
     Ch CHR ''+'', Ch CHR ''-'', Ch CHR ''.'', Ch CHR ''!'', Ch CHR ''|'', Ch CHR ''>'', Ch CHR ''~'',
     Ch CHR '':'', Ch CHR ''=''])]"

definition rule_escape :: rule where
  "rule_escape = replace_all_st re_escape False (\<lambda>m cs. protect (escapeHtml (grp_or_empty cs 1)))"

text \<open>\<^verbatim>\<open>/`([^`]+)`/g\<close>\<close>

definition re_code_span :: regex where
  "re_code_span = seq [Lit (CHR 0x60), Grp 1 (Plus (NCls [Ch (CHR 0x60)])), Lit (CHR 0x60)]"

definition rule_code_span :: rule where
  \<open>rule_code_span = replace_all_st re_code_span False (\<lambda>m cs.
     protect (js ''<code class="rounded bg-muted px-1 py-0.5 text-[0.8em] font-mono">''
              @ escapeHtml (grp_or_empty cs 1) @ js ''</code>''))\<close>

text \<open>\<^verbatim>\<open>/<((?:https?|ftp):\/\/[^>]+)>/g\<close>\<close>

definition re_scheme :: regex where
  "re_scheme = Alt (seq [str ''http'', Opt (Lit CHR ''s'')]) (str ''ftp'')"

definition re_angle_url :: regex where
  "re_angle_url = seq [Lit CHR ''<'', Grp 1 (seq [re_scheme, str ''://'', Plus (NCls [Ch CHR ''>''])]), Lit CHR ''>'']"

definition rule_angle_url :: rule where
  \<open>rule_angle_url = replace_all_st re_angle_url False (\<lambda>m cs.
     protect (js ''<a href="'' @ escapeHtmlAttr (grp_or_empty cs 1)
              @ js ''" target="_blank" rel="noreferrer" class="text-primary underline-offset-2 hover:underline">''
              @ escapeHtml (grp_or_empty cs 1) @ js ''</a>''))\<close>

text \<open>\<^verbatim>\<open>/<([A-Za-z0-9._%+-]+@[A-Za-z0-9.-]+\.[A-Za-z]{2,})>/g\<close>\<close>

definition re_email :: regex where
  "re_email = seq [
     Plus (Cls [Rg CHR ''A'' CHR ''Z'', Rg CHR ''a'' CHR ''z'', Rg CHR ''0'' CHR ''9'', Ch CHR ''.'', Ch CHR ''_'',
                Ch CHR ''%'', Ch CHR ''+'', Ch CHR ''-'']),
     Lit CHR ''@'',
     Plus (Cls [Rg CHR ''A'' CHR ''Z'', Rg CHR ''a'' CHR ''z'', Rg CHR ''0'' CHR ''9'', Ch CHR ''.'', Ch CHR ''-'']),
     Lit CHR ''.'',
     AtLeast 2 (Cls [Rg CHR ''A'' CHR ''Z'', Rg CHR ''a'' CHR ''z''])]"

definition re_angle_email :: regex where
  "re_angle_email = seq [Lit CHR ''<'', Grp 1 re_email, Lit CHR ''>'']"

definition rule_angle_email :: rule where
  \<open>rule_angle_email = replace_all_st re_angle_email False (\<lambda>m cs.
     protect (js ''<a href="mailto:'' @ escapeHtmlAttr (grp_or_empty cs 1)
              @ js ''" class="text-primary underline-offset-2 hover:underline">''
              @ escapeHtml (grp_or_empty cs 1) @ js ''</a>''))\<close>

text \<open>\<^verbatim>\<open>/<!--[\s\S]*?-->/g\<close> and \<^verbatim>\<open>/<\/?[A-Za-z][^>]*>/g\<close>: kept as they are\<close>

definition re_html_comment :: regex where
  "re_html_comment = seq [str ''<!--'', LazyStar (Cls [Sp, NSp]), str ''-->'']"

definition rule_html_comment :: rule where
  "rule_html_comment = replace_all_st re_html_comment False (\<lambda>m cs. protect m)"

definition re_html_tag :: regex where
  "re_html_tag = seq [Lit CHR ''<'', Opt (Lit CHR ''/''), Cls [Rg CHR ''A'' CHR ''Z'', Rg CHR ''a'' CHR ''z''],
     Star (NCls [Ch CHR ''>'']), Lit CHR ''>'']"

definition rule_html_tag :: rule where
  "rule_html_tag = replace_all_st re_html_tag False (\<lambda>m cs. protect m)"

text \<open>\<^verbatim>\<open>/!\[([^\]]*)\]\[([^\]]*)\]/g\<close>. A label that \<open>linkDefs\<close> maps to something truthy that
  is not a definition makes \<open>escapeHtmlAttr(def.url)\<close> read \<open>replace\<close> on \<open>undefined\<close>.\<close>

definition re_ref_image :: regex where
  "re_ref_image = seq [Lit CHR ''!'', Lit CHR ''['', Grp 1 (Star (NCls [Ch CHR '']''])), Lit CHR '']'',
     Lit CHR ''['', Grp 2 (Star (NCls [Ch CHR '']''])), Lit CHR '']'']"

definition img_html :: "int list \<Rightarrow> int list \<Rightarrow> int list \<Rightarrow> int list" where
  \<open>img_html src_url alt ttl = js ''<img src="'' @ src_url @ js ''" alt="'' @ escapeHtmlAttr alt @ js ''"'' @ ttl
     @ js '' class="inline-block max-w-full align-middle rounded-md" />''\<close>

definition ref_image_callback :: "defs_result \<Rightarrow> int list \<Rightarrow> captures \<Rightarrow> rstate \<Rightarrow> error + (int list \<times> rstate)" where
  "ref_image_callback ctx m cs st =
     (let alt = grp_or_empty cs 1; ident = grp_or_empty cs 2;
          key = toLowerCase (if ident \<noteq> [] then ident else alt)
      in case link_get (linkDefs ctx) key of
           Undefined \<Rightarrow> Inr (m, st)
         | NotADef \<Rightarrow> Inl TypeError
         | Def d \<Rightarrow> protect (img_html (escapeHtmlAttr (url d)) alt (title_attr (title d))) st)"

definition rule_ref_image :: "defs_result \<Rightarrow> rule" where
  "rule_ref_image ctx = replace_all_st re_ref_image False (ref_image_callback ctx)"

text \<open>\<^verbatim>\<open>/!\[([^\]]*)\]\((\S+?)(?:\s+"(.+?)")?\)/g\<close>\<close>

definition re_link_target :: regex where
  "re_link_target = seq [Lit CHR ''('', Grp 2 (LazyPlus (Cls [NSp])),
     Opt (seq [Plus (Cls [Sp]), Lit (CHR 0x22), Grp 3 (LazyPlus Dot), Lit (CHR 0x22)]), Lit CHR '')'']"

definition re_inline_image :: regex where
  "re_inline_image = seq [Lit CHR ''!'', Lit CHR ''['', Grp 1 (Star (NCls [Ch CHR '']''])), Lit CHR '']'', re_link_target]"

definition rule_inline_image :: rule where
  "rule_inline_image = replace_all_st re_inline_image False (\<lambda>m cs.
     protect (img_html (escapeHtmlAttr (unescapeMdUrl (grp_or_empty cs 2))) (grp_or_empty cs 1) (title_attr (grp cs 3))))"

text \<open>\<^verbatim>\<open>/\[([^\]]+)\]\[([^\]]*)\]/g\<close>\<close>

definition re_ref_link :: regex where
  "re_ref_link = seq [Lit CHR ''['', Grp 1 (Plus (NCls [Ch CHR '']''])), Lit CHR '']'',
     Lit CHR ''['', Grp 2 (Star (NCls [Ch CHR '']''])), Lit CHR '']'']"

definition link_html :: "int list \<Rightarrow> int list \<Rightarrow> int list \<Rightarrow> int list" where
  \<open>link_html href ttl inner = js ''<a href="'' @ href @ js ''"'' @ ttl
     @ js '' target="_blank" rel="noreferrer" class="text-primary underline-offset-2 hover:underline">''
     @ inner @ js ''</a>''\<close>

definition ref_link_callback :: "defs_result \<Rightarrow> int list \<Rightarrow> captures \<Rightarrow> rstate \<Rightarrow> error + (int list \<times> rstate)" where
  "ref_link_callback ctx m cs st =
     (let label = grp_or_empty cs 1; ident = grp_or_empty cs 2;
          key = toLowerCase (if ident \<noteq> [] then ident else label)
      in case link_get (linkDefs ctx) key of
           Undefined \<Rightarrow> Inr (m, st)
         | NotADef \<Rightarrow> Inl TypeError
         | Def d \<Rightarrow> protect (link_html (escapeHtmlAttr (url d)) (title_attr (title d)) (escapeHtml label)) st)"

definition rule_ref_link :: "defs_result \<Rightarrow> rule" where
  "rule_ref_link ctx = replace_all_st re_ref_link False (ref_link_callback ctx)"

text \<open>\<^verbatim>\<open>/\[([^\]]+)\]\((\S+?)(?:\s+"(.+?)")?\)/g\<close>\<close>

definition re_inline_link :: regex where
  "re_inline_link = seq [Lit CHR ''['', Grp 1 (Plus (NCls [Ch CHR '']''])), Lit CHR '']'', re_link_target]"

definition rule_inline_link :: rule where
  "rule_inline_link = replace_all_st re_inline_link False (\<lambda>m cs.
     protect (link_html (escapeHtmlAttr (unescapeMdUrl (grp_or_empty cs 2))) (title_attr (grp cs 3))
                (escapeHtml (grp_or_empty cs 1))))"

text \<open>\<^verbatim>\<open>/\[\^([^\]]+)\]/g\<close>: no look at \<open>footnoteDefs\<close>\<close>

definition re_footnote_ref :: regex where
  "re_footnote_ref = seq [Lit CHR ''['', Lit CHR ''^'', Grp 1 (Plus (NCls [Ch CHR '']''])), Lit CHR '']'']"

definition rule_footnote_ref :: rule where
  \<open>rule_footnote_ref = replace_all_st re_footnote_ref False (\<lambda>m cs.
     (let fid = escapeHtmlAttr (grp_or_empty cs 1)
      in protect (js ''<sup id="fnref-'' @ fid @ js ''" class="text-[0.7em] align-super"><a href="#fn-'' @ fid
                  @ js ''" class="text-primary underline-offset-2 hover:underline">['' @ escapeHtml fid
                  @ js '']</a></sup>'')))\<close>


text \<open>\<^verbatim>\<open>/==([^=]+)==/g\<close>, \<^verbatim>\<open>/(\*\*\*|___)([^]+?)\1/g\<close>, \<^verbatim>\<open>/(\*\*|__)([^]+?)\1/g\<close>,
  \<^verbatim>\<open>/(\*|_)([^]+?)\1/g\<close>, \<^verbatim>\<open>/~~([^~]+)~~/g\<close>\<close>

definition re_highlight :: regex where
  "re_highlight = seq [str ''=='', Grp 1 (Plus (NCls [Ch CHR ''=''])), str ''=='']"

definition rule_highlight :: rule where
  \<open>rule_highlight = replace_all_st re_highlight False (\<lambda>m cs.
     protect (js ''<mark class="rounded bg-yellow-200/70 px-0.5 dark:bg-yellow-500/40">''
              @ escapeHtml (grp_or_empty cs 1) @ js ''</mark>''))\<close>

definition re_wrapped :: "string \<Rightarrow> string \<Rightarrow> regex" where
  "re_wrapped a b = seq [Grp 1 (Alt (str a) (str b)), Grp 2 (LazyPlus (NCls [])), Bref 1]"

definition rule_bold_italic :: rule where
  \<open>rule_bold_italic = replace_all_st (re_wrapped ''***'' ''___'') False (\<lambda>m cs.
     protect (js ''<strong class="font-semibold"><em class="italic">'' @ escapeHtml (grp_or_empty cs 2)
              @ js ''</em></strong>''))\<close>

definition rule_bold :: rule where
  \<open>rule_bold = replace_all_st (re_wrapped ''**'' ''__'') False (\<lambda>m cs.
     protect (js ''<strong class="font-semibold">'' @ escapeHtml (grp_or_empty cs 2) @ js ''</strong>''))\<close>

definition rule_italic :: rule where
  \<open>rule_italic = replace_all_st (re_wrapped ''*'' ''_'') False (\<lambda>m cs.
     protect (js ''<em class="italic">'' @ escapeHtml (grp_or_empty cs 2) @ js ''</em>''))\<close>

definition re_strike :: regex where
  "re_strike = seq [str ''~~'', Grp 1 (Plus (NCls [Ch CHR ''~''])), str ''~~'']"

definition rule_strike :: rule where
  \<open>rule_strike = replace_all_st re_strike False (\<lambda>m cs.
     protect (js ''<del class="opacity-70">'' @ escapeHtml (grp_or_empty cs 1) @ js ''</del>''))\<close>

text \<open>\<^verbatim>\<open>/\[color=([#a-zA-Z0-9]+)\]([\s\S]+?)\[\/color\]/g\<close> and \<^verbatim>\<open>/^#?([0-9a-f]{3}|[0-9a-f]{6})$/i\<close>.
  The content is rendered by \<open>renderInline\<close> itself (the argument \<open>rec\<close>) before the span is stored.\<close>

definition re_color :: regex where
  "re_color = seq [str ''[color='',
     Grp 1 (Plus (Cls [Ch CHR ''#'', Rg CHR ''a'' CHR ''z'', Rg CHR ''A'' CHR ''Z'', Rg CHR ''0'' CHR ''9''])),
     Lit CHR '']'', Grp 2 (LazyPlus (Cls [Sp, NSp])), str ''[/color]'']"

definition re_hex_color :: regex where
  "re_hex_color = seq [Bol, Opt (Lit CHR ''#''),
     Grp 1 (Alt (Between 3 3 (Cls [Rg CHR ''0'' CHR ''9'', Rg CHR ''a'' CHR ''f'']))
                (Between 6 6 (Cls [Rg CHR ''0'' CHR ''9'', Rg CHR ''a'' CHR ''f'']))), Eol]"

definition namedColors :: "int list list" where
  "namedColors = map js [''red'', ''blue'', ''green'', ''yellow'', ''pink'', ''purple'', ''orange'']"

definition rule_color :: "rule \<Rightarrow> rule" where
  \<open>rule_color rec = replace_all_st re_color False (\<lambda>m cs st.
     (let lower = toLowerCase (grp_or_empty cs 1); content = grp_or_empty cs 2
      in if lower \<in> set namedColors
         then (case rec content st of
                 Inl e \<Rightarrow> Inl e
               | Inr (inner, st') \<Rightarrow>
                   protect (js ''<span class="'' @ escapeHtmlAttr (js ''text-'' @ lower @ js ''-500'') @ js ''">''
                            @ inner @ js ''</span>'') st')
         else (case rx_match re_hex_color True lower of
                 Some (hm, hcs) \<Rightarrow>
                   (case rec content st of
                      Inl e \<Rightarrow> Inl e
                    | Inr (inner, st') \<Rightarrow>
                        protect (js ''<span style="color:'' @ escapeHtmlAttr (js ''#'' @ grp_or_empty hcs 1) @ js ''">''
                                 @ inner @ js ''</span>'') st')
               | None \<Rightarrow> Inr (m, st))))\<close>

text \<open>\<^verbatim>\<open>/:([a-z0-9_+-]+):/gi\<close>. \<open>EMOJI_MAP\<close> is a plain object: the codes \<open>constructor\<close> and
  \<open>__proto__\<close> find a function and an object on its prototype chain, whose texts in the
  template are those of V8.\<close>

definition EMOJI_MAP :: "(int list \<times> int list) list" where
  "EMOJI_MAP = [
     (js ''smile'', [55357, 56836]),
     (js ''grin'', [55357, 56833]),
     (js ''joy'', [55357, 56834]),
     (js ''wink'', [55357, 56841]),
     (js ''thumbsup'', [55357, 56397]),
     (js ''thumbsdown'', [55357, 56398]),
     (js ''heart'', [10084, 65039]),
     (js ''fire'', [55357, 56613]),
     (js ''tada'', [55356, 57225]),
     (js ''rocket'', [55357, 56960]),
     (js ''warning'', [9888, 65039]),
     (js ''question'', [10067]),
     (js ''check'', [9989])]"

definition emoji_get :: "int list \<Rightarrow> int list option" where
  "emoji_get k =
     (case map_of EMOJI_MAP k of
        Some glyph \<Rightarrow> Some glyph
      | None \<Rightarrow>
          if k = js ''constructor'' then Some (js ''function Object() { [native code] }'')
          else if k = js ''__proto__'' then Some (js ''[object Object]'')
          else None)"

definition re_emoji :: regex where
  "re_emoji = seq [Lit CHR '':'',
     Grp 1 (Plus (Cls [Rg CHR ''a'' CHR ''z'', Rg CHR ''0'' CHR ''9'', Ch CHR ''_'', Ch CHR ''+'', Ch CHR ''-''])),
     Lit CHR '':'']"

definition rule_emoji :: rule where
  \<open>rule_emoji = replace_all_st re_emoji True (\<lambda>m cs st.
     (case emoji_get (toLowerCase (grp_or_empty cs 1)) of
        None \<Rightarrow> Inr (m, st)
      | Some emoji \<Rightarrow>
          protect (js ''<span class="md-emoji inline-block align-[-0.15em]" role="img" aria-label="''
                   @ escapeHtmlAttr (grp_or_empty cs 1) @ js ''">'' @ emoji @ js ''</span>'') st))\<close>

text \<open>The autolinks keep the code unit before the match (\<open>pre\<close>) outside the vault:
  \<^verbatim>\<open>/(^|[\s(])((?:https?|ftp):\/\/[^\s<]+[^\s<\.,:;"')\]\}!])/gi\<close>,
  \<^verbatim>\<open>/(^|[\s(])([A-Za-z0-9._%+-]+@[A-Za-z0-9.-]+\.[A-Za-z]{2,})/g\<close>, \<^verbatim>\<open>/(^|[\s(])#(\d+)\b/g\<close>,
  \<^verbatim>\<open>/(^|[\s(])@([a-zA-Z0-9_][a-zA-Z0-9_-]*)/g\<close>, \<^verbatim>\<open>/(^|[\s(])([0-9a-f]{7,40})\b/gi\<close>\<close>

definition re_pre :: regex where
  "re_pre = Grp 1 (Alt Bol (Cls [Sp, Ch CHR ''('']))"

definition with_pre :: "(int list \<Rightarrow> int list) \<Rightarrow> int list \<Rightarrow> captures \<Rightarrow> rstate \<Rightarrow> error + (int list \<times> rstate)" where
  "with_pre html m cs st =
     (case makePlaceholder (html (grp_or_empty cs 2)) st of (key, st') \<Rightarrow> Inr (grp_or_empty cs 1 @ key, st'))"

definition re_bare_url :: regex where
  "re_bare_url = seq [re_pre, Grp 2 (seq [re_scheme, str ''://'', Plus (NCls [Sp, Ch CHR ''<'']),
     NCls [Sp, Ch CHR ''<'', Ch CHR ''.'', Ch CHR '','', Ch CHR '':'', Ch CHR '';'', Ch (CHR 0x22), Ch (CHR 0x27),
           Ch CHR '')'', Ch CHR '']'', Ch CHR ''}'', Ch CHR ''!'']])]"

definition rule_bare_url :: rule where
  \<open>rule_bare_url = replace_all_st re_bare_url True (with_pre (\<lambda>u.
     js ''<a href="'' @ escapeHtmlAttr u
     @ js ''" target="_blank" rel="noreferrer" class="text-primary underline-offset-2 hover:underline break-all">''
     @ escapeHtml u @ js ''</a>''))\<close>

definition rule_bare_email :: rule where
  \<open>rule_bare_email = replace_all_st (seq [re_pre, Grp 2 re_email]) False (with_pre (\<lambda>email.
     js ''<a href="mailto:'' @ escapeHtmlAttr email
     @ js ''" class="text-primary underline-offset-2 hover:underline">'' @ escapeHtml email @ js ''</a>''))\<close>

definition re_issue :: regex where
  "re_issue = seq [re_pre, Lit CHR ''#'', Grp 2 (Plus (Cls [Dg])), WordB]"

definition rule_issue :: rule where
  \<open>rule_issue = replace_all_st re_issue False (with_pre (\<lambda>num.
     js ''<a href="#'' @ escapeHtmlAttr num
     @ js ''" class="md-issue text-blue-600 underline-offset-2 hover:underline dark:text-blue-400">#''
     @ escapeHtml num @ js ''</a>''))\<close>

definition re_mention :: regex where
  "re_mention = seq [re_pre, Lit CHR ''@'',
     Grp 2 (seq [Cls [Rg CHR ''a'' CHR ''z'', Rg CHR ''A'' CHR ''Z'', Rg CHR ''0'' CHR ''9'', Ch CHR ''_''],
                 Star (Cls [Rg CHR ''a'' CHR ''z'', Rg CHR ''A'' CHR ''Z'', Rg CHR ''0'' CHR ''9'', Ch CHR ''_'', Ch CHR ''-''])])]"

definition rule_mention :: rule where
  \<open>rule_mention = replace_all_st re_mention False (with_pre (\<lambda>user.
     js ''<span class="md-mention inline-flex items-center rounded bg-primary/10 px-1 text-[0.75rem] font-medium text-primary">@''
     @ escapeHtml user @ js ''</span>''))\<close>

definition re_commit :: regex where
  "re_commit = seq [re_pre, Grp 2 (Between 7 40 (Cls [Rg CHR ''0'' CHR ''9'', Rg CHR ''a'' CHR ''f''])), WordB]"

definition rule_commit :: rule where
  \<open>rule_commit = replace_all_st re_commit True (with_pre (\<lambda>hash.
     js ''<code class="md-commit rounded bg-muted px-1 py-0.5 text-[0.75em] font-mono">''
     @ escapeHtml hash @ js ''</code>''))\<close>

text \<open>
  One replacement for every key of \<open>abbrDefs\<close>, in the order of \<open>Object.keys\<close>. The expression
  is built from \<^verbatim>\<open>\b\<close>, the term with every character of regular-expression syntax
  escaped by \<open>escapeRegex\<close> (so that the term stands for itself), and \<^verbatim>\<open>\b\<close>.
\<close>

definition rule_abbr_one :: "int list \<Rightarrow> int list \<Rightarrow> rule" where
  \<open>rule_abbr_one abbr ttl = replace_all_st (seq [WordB, Txt abbr, WordB]) False (\<lambda>m cs.
     protect (js ''<abbr title="'' @ escapeHtmlAttr ttl @ js ''" class="cursor-help underline decoration-dotted">''
              @ escapeHtml abbr @ js ''</abbr>''))\<close>

definition rule_abbr :: "defs_result \<Rightarrow> rule" where
  "rule_abbr ctx = run_rules (map (\<lambda>abbr. rule_abbr_one abbr (case map_of (abbrDefs ctx) abbr of Some t \<Rightarrow> t | None \<Rightarrow> []))
                                 (object_keys id (abbrDefs ctx)))"

text \<open>\<open>renderInline\<close>. The first argument bounds the depth of the calls of \<open>renderInline\<close> from
  the rule of the colored spans.\<close>

primrec renderInline :: "nat \<Rightarrow> defs_result \<Rightarrow> rule" where
  "renderInline 0 ctx s st = Inl OutOfFuel"
| "renderInline (Suc n) ctx s st =
     (if s = [] then Inr ([], st)
      else run_rules
        [rule_br, rule_escape, rule_code_span, rule_angle_url, rule_angle_email, rule_html_comment,
         rule_html_tag, rule_ref_image ctx, rule_inline_image, rule_ref_link ctx, rule_inline_link,
         rule_footnote_ref, rule_highlight, rule_bold_italic, rule_bold, rule_italic, rule_strike,
         rule_color (renderInline n ctx), rule_emoji, rule_bare_url, rule_bare_email, rule_issue,
         rule_mention, rule_commit, rule_abbr ctx]
        (normalize_newlines s) st)"


section \<open>Tables\<close>

text \<open>\<^verbatim>\<open>/^\|/\<close>, \<^verbatim>\<open>/\|$/\<close>, \<^verbatim>\<open>/^:?-{3,}:?$/\<close>\<close>

definition splitRow :: "int list \<Rightarrow> int list list" where
  "splitRow line =
     map trim (split_on 124
       (replace_first (seq [Lit CHR ''|'', Eol]) False (\<lambda>m cs. [])
         (replace_first (seq [Bol, Lit CHR ''|'']) False (\<lambda>m cs. []) (trim line))))"

definition re_divider_cell :: regex where
  "re_divider_cell = seq [Bol, Opt (Lit CHR '':''), AtLeast 3 (Lit CHR ''-''), Opt (Lit CHR '':''), Eol]"

definition isTableDivider :: "int list \<Rightarrow> bool" where
  "isTableDivider line =
     (if trim line = [] then False
      else if length (filter (\<lambda>x. x = 124) (trim line)) < 1 then False
      else if splitRow line = [] then False
      else list_all (rx_test re_divider_cell False) (splitRow line))"

definition align_of :: "int list \<Rightarrow> int list" where
  "align_of c =
     (if starts_with c (js '':'') \<and> ends_with c (js '':'') then js ''center''
      else if ends_with c (js '':'') then js ''right''
      else if starts_with c (js '':'') then js ''left''
      else [])"

definition table_aligns :: "int list \<Rightarrow> int list list" where
  \<comment> \<open>\<open>aligns\<close>: one alignment for every cell of the divider line\<close>
  "table_aligns dividerLine = map align_of (splitRow dividerLine)"

definition align_style :: "int list list \<Rightarrow> nat \<Rightarrow> int list" where
  \<comment> \<open>\<open>aligns[idx] || ""\<close>, then the attribute when the alignment is not empty\<close>
  \<open>align_style aligns idx =
     (let align = (if idx < length aligns then aligns ! idx else [])
      in if align = [] then [] else js '' style="text-align:'' @ align @ js ''"'')\<close>

text \<open>\<open>cells.map((c, idx) => ...)\<close> with a callback that renders \<open>c\<close>: from left to right.\<close>

fun map_cells :: "(nat \<Rightarrow> int list \<Rightarrow> rstate \<Rightarrow> error + (int list \<times> rstate)) \<Rightarrow> nat \<Rightarrow> int list list \<Rightarrow> rstate
    \<Rightarrow> error + (int list list \<times> rstate)" where
  "map_cells f idx [] st = Inr ([], st)"
| "map_cells f idx (c # cs) st =
     (case f idx c st of
        Inl e \<Rightarrow> Inl e
      | Inr (h, st1) \<Rightarrow>
          (case map_cells f (Suc idx) cs st1 of
             Inl e \<Rightarrow> Inl e
           | Inr (hs, st2) \<Rightarrow> Inr (h # hs, st2)))"

definition th_cell :: "nat \<Rightarrow> defs_result \<Rightarrow> int list list \<Rightarrow> nat \<Rightarrow> int list \<Rightarrow> rstate \<Rightarrow> error + (int list \<times> rstate)" where
  \<open>th_cell fuel ctx aligns idx h st =
     (case renderInline fuel ctx h st of
        Inl e \<Rightarrow> Inl e
      | Inr (inner, st') \<Rightarrow>
          Inr (js ''<th'' @ align_style aligns idx
               @ js '' class="border-b border-border/60 px-2 py-1 text-left text-[0.75rem] font-medium text-muted-foreground">''
               @ inner @ js ''</th>'', st'))\<close>

definition td_cell :: "nat \<Rightarrow> defs_result \<Rightarrow> int list list \<Rightarrow> nat \<Rightarrow> int list \<Rightarrow> rstate \<Rightarrow> error + (int list \<times> rstate)" where
  \<open>td_cell fuel ctx aligns idx cell st =
     (case renderInline fuel ctx cell st of
        Inl e \<Rightarrow> Inl e
      | Inr (inner, st') \<Rightarrow>
          Inr (js ''<td'' @ align_style aligns idx
               @ js '' class="border-b border-border/40 px-2 py-1 align-top">'' @ inner @ js ''</td>'', st'))\<close>

text \<open>The cells of one body row: one \<open>td\<close> for every cell the row splits into.\<close>

definition row_cells :: "nat \<Rightarrow> defs_result \<Rightarrow> int list list \<Rightarrow> int list list \<Rightarrow> rstate \<Rightarrow> error + (int list list \<times> rstate)" where
  "row_cells fuel ctx aligns row st = map_cells (td_cell fuel ctx aligns) 0 row st"

fun table_rows :: "nat \<Rightarrow> defs_result \<Rightarrow> int list list \<Rightarrow> int list list list \<Rightarrow> rstate \<Rightarrow> error + (int list list \<times> rstate)" where
  "table_rows fuel ctx aligns [] st = Inr ([], st)"
| "table_rows fuel ctx aligns (row # rows) st =
     (case row_cells fuel ctx aligns row st of
        Inl e \<Rightarrow> Inl e
      | Inr (tds, st1) \<Rightarrow>
          (case table_rows fuel ctx aligns rows st1 of
             Inl e \<Rightarrow> Inl e
           | Inr (trs, st2) \<Rightarrow> Inr ((js ''<tr>'' @ concat tds @ js ''</tr>'') # trs, st2)))"

definition is_table_row :: "int list \<Rightarrow> bool" where
  \<comment> \<open>the body of the table goes on while the line is not blank and has a \<open>|\<close>\<close>
  "is_table_row l = (trim l \<noteq> [] \<and> str_includes l (js ''|''))"

text \<open>\<open>parseTableAt(lines, start)\<close>: the header line \<open>lines[start]\<close>, the divider line
  \<open>lines[start + 1]\<close> and the lines after them; the result is the table and the lines from
  \<open>next\<close> on.\<close>

definition parseTableAt :: "nat \<Rightarrow> defs_result \<Rightarrow> int list \<Rightarrow> int list \<Rightarrow> int list list \<Rightarrow> rstate
    \<Rightarrow> error + (int list \<times> int list list \<times> rstate)" where
  \<open>parseTableAt fuel ctx headerLine dividerLine after st =
     (let hdrs = splitRow headerLine;
          aligns = table_aligns dividerLine;
          rows = map splitRow (takeWhile is_table_row after)
      in case map_cells (th_cell fuel ctx aligns) 0 hdrs st of
           Inl e \<Rightarrow> Inl e
         | Inr (ths, st1) \<Rightarrow>
             (case table_rows fuel ctx aligns rows st1 of
                Inl e \<Rightarrow> Inl e
              | Inr (trs, st2) \<Rightarrow>
                  Inr (js ''<table class="my-3 w-full border-collapse overflow-hidden rounded-md border border-border/60 text-xs">''
                       @ js ''<thead class="bg-muted/40"><tr>'' @ concat ths @ js ''</tr></thead>''
                       @ js ''<tbody>'' @ concat trs @ js ''</tbody>'' @ js ''</table>'',
                       dropWhile is_table_row after, st2)))\<close>


section \<open>Lists\<close>

text \<open>\<^verbatim>\<open>/^(\s*)([*+-]|\d+\.)\s+(.*)$/\<close>, \<^verbatim>\<open>/\d+\./\<close>, \<^verbatim>\<open>/^\[( |x|X)\]\s+(.*)$/\<close>, and
  \<^verbatim>\<open>^\s{0,N}\<close> for \<open>N = baseIndent + 2\<close>\<close>

definition re_marker :: regex where
  "re_marker = Alt (Cls [Ch CHR ''*'', Ch CHR ''+'', Ch CHR ''-'']) (seq [Plus (Cls [Dg]), Lit CHR ''.''])"

definition itemRe :: regex where
  "itemRe = seq [Bol, Grp 1 (Star (Cls [Sp])), Grp 2 re_marker, Plus (Cls [Sp]), Grp 3 (Star Dot), Eol]"

definition re_ordered :: regex where
  "re_ordered = seq [Plus (Cls [Dg]), Lit CHR ''.'']"

definition re_task :: regex where
  "re_task = seq [Bol, Lit CHR ''['', Grp 1 (alts [Lit CHR '' '', Lit CHR ''x'', Lit CHR ''X'']), Lit CHR '']'',
     Plus (Cls [Sp]), Grp 2 (Star Dot), Eol]"

definition strip_indent :: "nat \<Rightarrow> int list \<Rightarrow> int list" where
  "strip_indent baseIndent l = replace_first (seq [Bol, Between 0 (baseIndent + 2) (Cls [Sp])]) False (\<lambda>m cs. []) l"

text \<open>The continuation lines of an item: up to a blank line (which is consumed) or the next
  item line (which is not).\<close>

fun gather_cont :: "nat \<Rightarrow> int list list \<Rightarrow> int list list \<times> int list list" where
  "gather_cont baseIndent [] = ([], [])"
| "gather_cont baseIndent (l # ls) =
     (if trim l = [] then ([], ls)
      else if rx_test itemRe False l then ([], l # ls)
      else (case gather_cont baseIndent ls of (conts, after) \<Rightarrow> (strip_indent baseIndent l # conts, after)))"

definition item_html :: "nat \<Rightarrow> defs_result \<Rightarrow> int list list \<Rightarrow> rstate \<Rightarrow> error + (int list \<times> rstate)" where
  \<open>item_html fuel ctx itemLines st =
     (let task = rx_match re_task False (hd itemLines);
          prefix = (case task of
                      None \<Rightarrow> []
                    | Some (m, cs) \<Rightarrow>
                        js ''<input type="checkbox" disabled''
                        @ (if toLowerCase (grp_or_empty cs 1) = js ''x'' then js '' checked'' else [])
                        @ js '' class="mr-1 h-3 w-3 rounded border border-border align-middle accent-primary" /> '');
          bodyText = (case task of
                        None \<Rightarrow> join [10] itemLines
                      | Some (m, cs) \<Rightarrow> join [10] (grp_or_empty cs 2 # tl itemLines))
      in case renderInline fuel ctx (trim bodyText) st of
           Inl e \<Rightarrow> Inl e
         | Inr (inner, st') \<Rightarrow> Inr (js ''<li class="ml-1">'' @ prefix @ inner @ js ''</li>'', st'))\<close>

definition append_to_last :: "int list list \<Rightarrow> int list \<Rightarrow> int list list" where
  \<comment> \<open>\<open>if (items.length > 0) items[items.length - 1] += html\<close>\<close>
  "append_to_last items html = (if items = [] then items else butlast items @ [last items @ html])"

text \<open>\<open>parseListAt(lines, start)\<close> on the lines from \<open>start\<close> on, and its loop; both return the
  lines from \<open>next\<close> on. The first argument bounds the number of iterations and nested calls.\<close>

fun parseListAt :: "nat \<Rightarrow> defs_result \<Rightarrow> int list list \<Rightarrow> rstate \<Rightarrow> error + (int list \<times> int list list \<times> rstate)"
  and list_loop :: "nat \<Rightarrow> defs_result \<Rightarrow> nat \<Rightarrow> int list list \<Rightarrow> int list list \<Rightarrow> rstate
    \<Rightarrow> error + (int list list \<times> int list list \<times> rstate)" where
  "parseListAt 0 ctx lines st = Inl OutOfFuel"
| "parseListAt (Suc n) ctx lines st =
     (case lines of
        [] \<Rightarrow> Inl TypeError
      | line # after \<Rightarrow>
          (case rx_match itemRe False line of
             None \<Rightarrow> Inr ([], after, st)
           | Some (m, cs) \<Rightarrow>
               (case list_loop n ctx (length (grp_or_empty cs 1)) lines [] st of
                  Inl e \<Rightarrow> Inl e
                | Inr (items, after', st') \<Rightarrow>
                    Inr (if rx_test re_ordered False (grp_or_empty cs 2)
                         then js ''<ol class=\"list-decimal list-inside ml-4 my-2 space-y-1\">'' @ concat items @ js ''</ol>''
                         else js ''<ul class=\"list-disc list-inside ml-4 my-2 space-y-1\">'' @ concat items @ js ''</ul>'',
                         after', st'))))"
| "list_loop 0 ctx baseIndent lines items st = Inl OutOfFuel"
| "list_loop (Suc n) ctx baseIndent lines items st =
     (case lines of
        [] \<Rightarrow> Inr (items, [], st)
      | line # after \<Rightarrow>
          if trim line = [] then Inr (items, lines, st)
          else (case rx_match itemRe False line of
                  None \<Rightarrow> Inr (items, lines, st)
                | Some (m, cs) \<Rightarrow>
                    if length (grp_or_empty cs 1) < baseIndent then Inr (items, lines, st)
                    else if baseIndent < length (grp_or_empty cs 1)
                    then (case parseListAt n ctx lines st of
                            Inl e \<Rightarrow> Inl e
                          | Inr (nested, after', st') \<Rightarrow>
                              list_loop n ctx baseIndent after' (append_to_last items nested) st')
                    else (case item_html n ctx (grp_or_empty cs 3 # fst (gather_cont baseIndent after)) st of
                            Inl e \<Rightarrow> Inl e
                          | Inr (li, st') \<Rightarrow>
                              list_loop n ctx baseIndent (snd (gather_cont baseIndent after)) (items @ [li]) st')))"


section \<open>Block parser\<close>

text \<open>
  \<^verbatim>\<open>/^(\s*)(`{3,}|~{3,})(.*)$/\<close>, \<^verbatim>\<open>/^(\s{0,3})(#{1,6})\s+(.*)$/\<close>, \<^verbatim>\<open>/\s+#+\s*$/\<close>,
  \<^verbatim>\<open>/^(\s{0,3})([-*_])(?:\s*\2){2,}\s*$/\<close>, \<^verbatim>\<open>/^\s*>/\<close>, \<^verbatim>\<open>/^\s*> ?/\<close>,
  \<^verbatim>\<open>/^\s*\[(toc|TOC)\]\s*$/\<close>, \<^verbatim>\<open>/^\s*([*+-]|\d+\.)\s+/\<close>, \<^verbatim>\<open>/^\s*<!--/\<close>, \<^verbatim>\<open>/^\s*</\<close>,
  \<^verbatim>\<open>/^(.+?)\s*:\s+(.+)$/\<close>, \<^verbatim>\<open>/^(\s{0,3})(#{1,6})\s+/\<close>
\<close>

definition re_fence :: regex where
  "re_fence = seq [Bol, Grp 1 (Star (Cls [Sp])),
     Grp 2 (Alt (AtLeast 3 (Lit (CHR 0x60))) (AtLeast 3 (Lit CHR ''~''))), Grp 3 (Star Dot), Eol]"

definition re_heading :: regex where
  "re_heading = seq [Bol, Grp 1 (Between 0 3 (Cls [Sp])), Grp 2 (Between 1 6 (Lit CHR ''#'')), Plus (Cls [Sp]),
     Grp 3 (Star Dot), Eol]"

definition re_heading_start :: regex where
  "re_heading_start = seq [Bol, Grp 1 (Between 0 3 (Cls [Sp])), Grp 2 (Between 1 6 (Lit CHR ''#'')), Plus (Cls [Sp])]"

definition re_closing_hashes :: regex where
  "re_closing_hashes = seq [Plus (Cls [Sp]), Plus (Lit CHR ''#''), Star (Cls [Sp]), Eol]"

definition re_hr :: regex where
  "re_hr = seq [Bol, Grp 1 (Between 0 3 (Cls [Sp])), Grp 2 (Cls [Ch CHR ''-'', Ch CHR ''*'', Ch CHR ''_'']),
     AtLeast 2 (seq [Star (Cls [Sp]), Bref 2]), Star (Cls [Sp]), Eol]"

definition re_quote :: regex where
  "re_quote = seq [Bol, Star (Cls [Sp]), Lit CHR ''>'']"

definition re_quote_strip :: regex where
  "re_quote_strip = seq [Bol, Star (Cls [Sp]), Lit CHR ''>'', Opt (Lit CHR '' '')]"

definition re_toc :: regex where
  "re_toc = seq [Bol, Star (Cls [Sp]), Lit CHR ''['', Grp 1 (Alt (str ''toc'') (str ''TOC'')), Lit CHR '']'',
     Star (Cls [Sp]), Eol]"

definition re_list_start :: regex where
  "re_list_start = seq [Bol, Star (Cls [Sp]), Grp 1 re_marker, Plus (Cls [Sp])]"

definition re_comment_start :: regex where
  "re_comment_start = seq [Bol, Star (Cls [Sp]), str ''<!--'']"

definition re_html_start :: regex where
  "re_html_start = seq [Bol, Star (Cls [Sp]), Lit CHR ''<'']"

definition re_deflist :: regex where
  "re_deflist = seq [Bol, Grp 1 (LazyPlus Dot), Star (Cls [Sp]), Lit CHR '':'', Plus (Cls [Sp]), Grp 2 (Plus Dot), Eol]"

definition TOC_PLACEHOLDER :: "int list" where
  \<comment> \<open>two section signs (U+00A7) on either side of \<open>__MD_TOC__\<close>\<close>
  "TOC_PLACEHOLDER = [167, 167] @ js ''__MD_TOC__'' @ [167, 167]"

definition headingClass :: "nat \<Rightarrow> int list" where
  "headingClass level =
     (if level = 1 then js ''mt-6 mb-3 scroll-m-20 text-4xl font-extrabold tracking-tight lg:text-5xl''
      else if level = 2 then js ''mt-6 mb-3 scroll-m-20 border-b pb-2 text-3xl font-semibold tracking-tight first:mt-0''
      else if level = 3 then js ''mt-4 mb-2 scroll-m-20 text-2xl font-semibold tracking-tight''
      else if level = 4 then js ''mt-4 mb-2 scroll-m-20 text-xl font-semibold tracking-tight''
      else if level = 5 then js ''mt-3 mb-2 scroll-m-20 text-lg font-semibold tracking-tight''
      else js ''mt-3 mb-2 scroll-m-20 text-base font-semibold tracking-tight text-muted-foreground'')"

definition first_field :: "int list \<Rightarrow> int list" where
  \<comment> \<open>\<open>info.split(/\s+/)[0]\<close>: the text before the first run of white space\<close>
  "first_field info = (case search (Plus (Cls [Sp])) False 0 None info of None \<Rightarrow> info | Some (a, m) \<Rightarrow> take a info)"

definition fence_html :: "int list \<Rightarrow> int list list \<Rightarrow> int list" where
  \<open>fence_html info codeLines =
     (let lang = first_field info;
          langClass = (if lang = [] then [] else js ''language-'' @ escapeHtmlAttr lang)
      in js ''<pre class="my-2 overflow-x-auto rounded-md bg-muted/60 p-2 text-xs font-mono"><code class="''
         @ langClass @ js ''">'' @ escapeHtml (join [10] codeLines) @ js ''</code></pre>'')\<close>

definition indented_html :: "int list list \<Rightarrow> int list" where
  \<open>indented_html codeLines =
     js ''<pre class="my-2 overflow-x-auto rounded-md bg-muted/60 p-2 text-xs font-mono"><code>''
     @ escapeHtml (join [10] codeLines) @ js ''</code></pre>''\<close>

definition heading_html :: "nat \<Rightarrow> int list \<Rightarrow> int list \<Rightarrow> int list" where
  \<open>heading_html level ident inner =
     js ''<h'' @ digits10 level @ js '' id="'' @ ident @ js ''" class="'' @ headingClass level @ js ''">''
     @ inner @ js ''</h'' @ digits10 level @ js ''>''\<close>

definition heading_text :: "int list \<Rightarrow> int list" where
  \<comment> \<open>\<open>textContent\<close>: the third group trimmed, without a closing run of \<open>#\<close>\<close>
  "heading_text g = replace_first re_closing_hashes False (\<lambda>m cs. []) (trim g)"

definition quote_html :: "int list \<Rightarrow> int list" where
  \<open>quote_html inner =
     js ''<blockquote class="my-2 border-l-2 border-muted-foreground/30 pl-3 text-[0.85rem] text-muted-foreground space-y-1">''
     @ inner @ js ''</blockquote>''\<close>

text \<open>The lines of a comment block: up to and with the first line that has \<^verbatim>\<open>-->\<close>.\<close>

fun take_comment :: "int list list \<Rightarrow> int list list \<times> int list list" where
  "take_comment [] = ([], [])"
| "take_comment (l # ls) =
     (if str_includes l (js ''-->'') then ([l], ls)
      else (case take_comment ls of (c, after) \<Rightarrow> (l # c, after)))"

text \<open>The items of a definition list: every following line of the form \<open>Term : Definition\<close>.\<close>

fun deflist_items :: "nat \<Rightarrow> defs_result \<Rightarrow> int list list \<Rightarrow> rstate \<Rightarrow> error + (int list list \<times> int list list \<times> rstate)" where
  "deflist_items fuel ctx [] st = Inr ([], [], st)"
| "deflist_items fuel ctx (l # ls) st =
     (case rx_match re_deflist False l of
        None \<Rightarrow> Inr ([], l # ls, st)
      | Some (m, cs) \<Rightarrow>
          (case renderInline fuel ctx (trim (grp_or_empty cs 1)) st of
             Inl e \<Rightarrow> Inl e
           | Inr (dt, st1) \<Rightarrow>
               (case renderInline fuel ctx (trim (grp_or_empty cs 2)) st1 of
                  Inl e \<Rightarrow> Inl e
                | Inr (dd, st2) \<Rightarrow>
                    (case deflist_items fuel ctx ls st2 of
                       Inl e \<Rightarrow> Inl e
                     | Inr (items, after, st3) \<Rightarrow>
                         Inr ((js ''<dt class=\"font-medium text-xs text-muted-foreground uppercase tracking-wide\">''
                               @ dt @ js ''</dt><dd class=\"ml-3 text-sm\">'' @ dd @ js ''</dd>'') # items,
                              after, st3)))))"

text \<open>The test that ends a paragraph before the line \<open>l\<close>; \<open>ls\<close> are the lines after \<open>l\<close>.\<close>

definition table_starts :: "int list \<Rightarrow> int list list \<Rightarrow> bool" where
  "table_starts l ls = (str_includes l (js ''|'') \<and> ls \<noteq> [] \<and> isTableDivider (hd ls))"

definition para_break :: "int list \<Rightarrow> int list list \<Rightarrow> bool" where
  "para_break l ls =
     (rx_test re_heading_start False l \<or> rx_test re_hr False l \<or> rx_test re_quote False l
      \<or> rx_test re_list_start False l \<or> table_starts l ls \<or> rx_test re_fence False l
      \<or> rx_test re_indent_code False l \<or> rx_test re_html_start False l \<or> rx_test re_deflist False l
      \<or> rx_test re_toc False l)"

fun para_lines :: "int list list \<Rightarrow> int list list \<times> int list list" where
  "para_lines [] = ([], [])"
| "para_lines (l # ls) =
     (if trim l = [] then ([], l # ls)
      else if para_break l ls then ([], l # ls)
      else (case para_lines ls of (ps, after) \<Rightarrow> (l # ps, after)))"

definition emit :: "int list \<Rightarrow> error + (int list list \<times> rstate) \<Rightarrow> error + (int list list \<times> rstate)" where
  \<comment> \<open>\<open>out.push(block)\<close> before the rest of the loop\<close>
  "emit block r = (case r of Inl e \<Rightarrow> Inl e | Inr (out, st) \<Rightarrow> Inr (block # out, st))"


text \<open>
  The loop of \<open>parseBlocks\<close> on the lines from \<open>i\<close> on; the result is the list \<open>out\<close>. One
  unit of the first argument is used by every iteration and by the call of \<open>parseBlocks\<close> on
  the text of a quote.
\<close>

fun blocks_loop :: "nat \<Rightarrow> defs_result \<Rightarrow> int list list \<Rightarrow> rstate \<Rightarrow> error + (int list list \<times> rstate)" where
  "blocks_loop n ctx [] st = Inr ([], st)"
| "blocks_loop 0 ctx (line # after) st = Inl OutOfFuel"
| "blocks_loop (Suc n) ctx (line # after) st =
     (if trim line = [] then blocks_loop n ctx after st
      else case rx_match re_fence False line of
        Some (m, cs) \<Rightarrow>
          emit (fence_html (trim (grp_or_empty cs 3))
                  (takeWhile (\<lambda>l. \<not> starts_with (trim l) (grp_or_empty cs 2)) after))
            (blocks_loop n ctx (drop 1 (dropWhile (\<lambda>l. \<not> starts_with (trim l) (grp_or_empty cs 2)) after)) st)
      | None \<Rightarrow>
      if rx_test re_indent_code False line then
        emit (indented_html (map (replace_first re_indent_strip False (\<lambda>m cs. []))
                               (takeWhile (rx_test re_indent_code False) (line # after))))
          (blocks_loop n ctx (dropWhile (rx_test re_indent_code False) after) st)
      else case rx_match re_heading False line of
        Some (m, cs) \<Rightarrow>
          (case renderInline n ctx (heading_text (grp_or_empty cs 3)) st of
             Inl e \<Rightarrow> Inl e
           | Inr (inner, st1) \<Rightarrow>
               emit (heading_html (length (grp_or_empty cs 2)) (slugify (heading_text (grp_or_empty cs 3))) inner)
                 (blocks_loop n ctx after
                    (st1\<lparr>headings := headings st1 @
                       [(length (grp_or_empty cs 2), heading_text (grp_or_empty cs 3),
                         slugify (heading_text (grp_or_empty cs 3)))]\<rparr>)))
      | None \<Rightarrow>
      if rx_test re_hr False line then
        emit (js ''<hr class=\"my-3 border-border/60\" />'') (blocks_loop n ctx after st)
      else if rx_test re_quote False line then
        (case blocks_loop n ctx
                (split_on 10 (normalize_newlines (join [10]
                   (map (replace_first re_quote_strip False (\<lambda>m cs. []))
                      (takeWhile (rx_test re_quote False) (line # after))))))
                st of
           Inl e \<Rightarrow> Inl e
         | Inr (inner, st1) \<Rightarrow>
             emit (quote_html (join [10] inner))
               (blocks_loop n ctx (dropWhile (rx_test re_quote False) after) st1))
      else if rx_test re_toc False line then
        emit TOC_PLACEHOLDER (blocks_loop n ctx after st)
      else if table_starts line after then
        (case parseTableAt n ctx line (hd after) (tl after) st of
           Inl e \<Rightarrow> Inl e
         | Inr (html, after', st1) \<Rightarrow> emit html (blocks_loop n ctx after' st1))
      else if rx_test re_list_start False line then
        (case parseListAt n ctx (line # after) st of
           Inl e \<Rightarrow> Inl e
         | Inr (html, after', st1) \<Rightarrow> emit html (blocks_loop n ctx after' st1))
      else if rx_test re_comment_start False line then
        emit (join [10] (fst (take_comment (line # after))))
          (blocks_loop n ctx (snd (take_comment (line # after))) st)
      else if rx_test re_html_start False line then
        emit (join [10] (takeWhile (\<lambda>l. trim l \<noteq> []) (line # after)))
          (blocks_loop n ctx (dropWhile (\<lambda>l. trim l \<noteq> []) after) st)
      else if rx_test re_deflist False line then
        (case deflist_items n ctx (line # after) st of
           Inl e \<Rightarrow> Inl e
         | Inr (items, after', st1) \<Rightarrow>
             emit (js ''<dl class=\"my-2 space-y-1\">'' @ concat items @ js ''</dl>'')
               (blocks_loop n ctx after' st1))
      else if trim (join [10] (line # fst (para_lines after))) = [] then
        blocks_loop n ctx (snd (para_lines after)) st
      else
        (case renderInline n ctx (trim (join [10] (line # fst (para_lines after)))) st of
           Inl e \<Rightarrow> Inl e
         | Inr (inner, st1) \<Rightarrow>
             emit (js ''<p class=\"my-1 text-sm leading-relaxed\">'' @ inner @ js ''</p>'')
               (blocks_loop n ctx (snd (para_lines after)) st1)))"

definition parseBlocks :: "nat \<Rightarrow> defs_result \<Rightarrow> int list \<Rightarrow> rstate \<Rightarrow> error + (int list \<times> rstate)" where
  "parseBlocks fuel ctx src st =
     (case blocks_loop fuel ctx (split_on 10 (normalize_newlines src)) st of
        Inl e \<Rightarrow> Inl e
      | Inr (out, st') \<Rightarrow> Inr (join [10] out, st'))"


section \<open>Post-processor\<close>

definition toc_item :: "nat \<times> int list \<times> int list \<Rightarrow> int list" where
  \<open>toc_item h = (case h of (level, htext, ident) \<Rightarrow>
     js ''<div style="margin-left:'' @ digits10 ((level - 1) * 12) @ js ''px"><a href="#'' @ escapeHtmlAttr ident
     @ js ''" class="block text-xs text-muted-foreground hover:text-foreground">'' @ escapeHtml htext
     @ js ''</a></div>'')\<close>

definition toc_html :: "(nat \<times> int list \<times> int list) list \<Rightarrow> int list" where
  \<open>toc_html hs = js ''<nav class="md-toc mb-3 rounded-md border bg-muted/40 p-2 text-xs space-y-1">''
     @ concat (map toc_item hs) @ js ''</nav>''\<close>

text \<open>The entries of the footnote section, one for every key of \<open>footnoteDefs\<close>: the body goes
  through \<open>parseBlocks\<close>; the link back ends with U+21A9 U+FE0E.\<close>

fun footnote_items :: "nat \<Rightarrow> defs_result \<Rightarrow> int list list \<Rightarrow> rstate \<Rightarrow> error + (int list list \<times> rstate)" where
  "footnote_items fuel ctx [] st = Inr ([], st)"
| "footnote_items fuel ctx (k # ks) st =
     (case parseBlocks fuel ctx (case map_of (footnoteDefs ctx) k of Some b \<Rightarrow> b | None \<Rightarrow> []) st of
        Inl e \<Rightarrow> Inl e
      | Inr (body, st1) \<Rightarrow>
          (case footnote_items fuel ctx ks st1 of
             Inl e \<Rightarrow> Inl e
           | Inr (items, st2) \<Rightarrow>
               Inr ((js ''<li id=\"fn-'' @ escapeHtmlAttr k @ js ''\" class=\"ml-1\">'' @ body
                     @ js '' <a href=\"#fnref-'' @ escapeHtmlAttr k
                     @ js ''\" class=\"footnote-backref text-primary underline-offset-2 hover:underline\">''
                     @ [8617, 65038] @ js ''</a></li>'') # items, st2)))"

definition footnotes_html :: "int list list \<Rightarrow> int list" where
  \<open>footnotes_html items =
     js ''<section class="footnotes mt-4 space-y-1 text-xs text-muted-foreground"><hr class="my-2 border-border/60" /><ol class="list-decimal list-inside ml-4 space-y-1">''
     @ concat items @ js ''</ol></section>''\<close>

definition with_toc :: "rstate \<Rightarrow> int list \<Rightarrow> int list" where
  "with_toc st html =
     (if str_includes html TOC_PLACEHOLDER then split_join TOC_PLACEHOLDER (toc_html (headings st)) html else html)"

definition footnote_section :: "nat \<Rightarrow> defs_result \<Rightarrow> rstate \<Rightarrow> error + (int list \<times> rstate)" where
  \<comment> \<open>what is appended to the markup: nothing when \<open>footnoteDefs\<close> has no key\<close>
  "footnote_section fuel d st =
     (if object_keys id (footnoteDefs d) \<noteq> []
      then (case footnote_items fuel d (object_keys id (footnoteDefs d)) st of
              Inl e \<Rightarrow> Inl e
            | Inr (items, st') \<Rightarrow> Inr ([10] @ footnotes_html items, st'))
      else Inr ([], st))"

text \<open>\<open>renderMarkdown\<close>, the operation \<open>compile\<close> of the specification; \<open>render_document\<close> is
  \<open>renderMarkdown\<close> up to the call of \<open>restorePlaceholders\<close>, with the final state. The first
  argument bounds the recursion of the block parser and of the inline renderer.\<close>

definition render_document :: "nat \<Rightarrow> int list \<Rightarrow> error + (int list \<times> rstate)" where
  "render_document fuel src =
     (let d = extractDefinitions src
      in case parseBlocks fuel d (cleaned d) init_state of
           Inl e \<Rightarrow> Inl e
         | Inr (html, st) \<Rightarrow>
             (case footnote_section fuel d st of
                Inl e \<Rightarrow> Inl e
              | Inr (sect, st') \<Rightarrow> Inr (with_toc st html @ sect, st')))"

definition renderMarkdown :: "nat \<Rightarrow> int list \<Rightarrow> error + int list" where
  "renderMarkdown fuel src =
     (case render_document fuel src of
        Inl e \<Rightarrow> Inl e
      | Inr (html, st) \<Rightarrow> Inr (restorePlaceholders (placeholderMap st) html))"

section \<open>Predicates of the statements\<close>


text \<open>Two invariants of the state: every key of the vault was made by \<open>makePlaceholder\<close>, and every
  heading record carries the slug of its text. \<open>keeps_by\<close> says that a step which succeeds
  keeps them.\<close>

definition vault_ok :: "rstate \<Rightarrow> bool" where
  "vault_ok st = (\<forall>kh \<in> set (placeholderMap st). \<exists>n. fst kh = placeholder_key n)"

definition headings_ok :: "rstate \<Rightarrow> bool" where
  "headings_ok st = (\<forall>h \<in> set (headings st). snd (snd h) = slugify (fst (snd h)))"

definition state_ok :: "rstate \<Rightarrow> bool" where
  "state_ok st = (vault_ok st \<and> headings_ok st)"

definition keeps_by :: "('r \<Rightarrow> rstate) \<Rightarrow> (rstate \<Rightarrow> error + 'r) \<Rightarrow> bool" where
  "keeps_by proj f = (\<forall>st r. f st = Inr r \<longrightarrow> state_ok st \<longrightarrow> state_ok (proj r))"

abbreviation keeps :: "(rstate \<Rightarrow> error + ('a \<times> rstate)) \<Rightarrow> bool" where
  "keeps f \<equiv> keeps_by snd f"

abbreviation keeps3 :: "(rstate \<Rightarrow> error + ('a \<times> 'b \<times> rstate)) \<Rightarrow> bool" where
  "keeps3 f \<equiv> keeps_by (\<lambda>r. snd (snd r)) f"


definition link_bound :: "linkdefs \<Rightarrow> int list \<Rightarrow> linkdef \<Rightarrow> bool" where
  "link_bound L k d = (if k = js ''__proto__'' then proto L = Some d else map_of (own L) k = Some d)"

definition redefines :: "int list \<Rightarrow> int list \<Rightarrow> bool" where
  "redefines k l =
     (case rx_match re_link_def False l of
        None \<Rightarrow> False
      | Some (m, cs) \<Rightarrow> toLowerCase (grp_or_empty cs 1) = k)"

text \<open>Two results of which the second is that of a larger recursion bound: the first has run
  out of the bound, or they are equal.\<close>

definition fle :: "error + 'a \<Rightarrow> error + 'a \<Rightarrow> bool" where
  "fle r r' = (r = Inl OutOfFuel \<or> r' = r)"

text \<open>The input with every \<open>\r\n\<close> and every other \<open>\r\<close> replaced by \<open>\n\<close>, written on the code units
  (13 is \<open>\r\<close>, 10 is \<open>\n\<close>) without the regular expression of the program.\<close>

fun unix_newlines :: "int list \<Rightarrow> int list" where
  "unix_newlines [] = []"
| "unix_newlines [x] = (if x = 13 then [10] else [x])"
| "unix_newlines (x # y # ys) =
     (if x = 13 \<and> y = 10 then 10 # unix_newlines ys
      else if x = 13 then 10 # unix_newlines (y # ys)
      else x # unix_newlines (y # ys))"

text \<open>A \<open>td\<close> element made for the cell \<open>snd ic\<close> at the index \<open>fst ic\<close>: its content is a result of
  \<open>renderInline\<close> on the cell. A \<open>tr\<close> element made for a row: one such \<open>td\<close> for every cell of
  the row, in order, and nothing else.\<close>

definition is_td :: "nat \<Rightarrow> defs_result \<Rightarrow> int list list \<Rightarrow> nat \<times> int list \<Rightarrow> int list \<Rightarrow> bool" where
  \<open>is_td fuel ctx aligns ic h =
     (\<exists>inner s s'. renderInline fuel ctx (snd ic) s = Inr (inner, s')
        \<and> h = js ''<td'' @ align_style aligns (fst ic) @ js '' class="border-b border-border/40 px-2 py-1 align-top">''
              @ inner @ js ''</td>'')\<close>

definition is_tr :: "nat \<Rightarrow> defs_result \<Rightarrow> int list list \<Rightarrow> int list list \<Rightarrow> int list \<Rightarrow> bool" where
  \<open>is_tr fuel ctx aligns row tr =
     (\<exists>tds. tr = js ''<tr>'' @ concat tds @ js ''</tr>''
        \<and> list_all2 (is_td fuel ctx aligns) (zip [0..<length row] row) tds)\<close>

section \<open>Properties\<close>

subsection \<open>The matcher and the replacements\<close>

declare rep_loop.simps [simp del]

declare digits10.simps [simp del]

lemma step1_Nil [simp]: "step1 P (i, p, [], cs) = []"
  by (simp add: step1_def)

lemma step1_Cons [simp]:
  "step1 P (i, p, x # xs, cs) = (if P x then [(Suc i, Some x, xs, cs)] else [])"
  by (simp add: step1_def)

lemma rest_of_simp [simp]: "rest_of (i, p, r, cs) = r"
  by (simp add: rest_of_def)

lemma rep_loop_stop [simp]: "rep_loop f g 0 (Some 0) st = [st]"
  by (subst rep_loop.simps) (simp add: Let_def)

lemma rep_loop_opt:
  "rep_loop f True 0 (Some (Suc 0)) st =
     concat (map (\<lambda>st'. if \<not> length (rest_of st') < length (rest_of st) then [] else [st']) (f st)) @ [st]"
  by (subst rep_loop.simps) (simp add: Let_def cong: if_cong)

lemma rep_loop_no_step:
  "f st = [] \<Longrightarrow> rep_loop f g lo hi st = (if lo = 0 then [st] else [])"
  by (subst rep_loop.simps) (simp add: Let_def)

lemma search_anchored_pos: "0 < i \<Longrightarrow> search (Seq Bol r) ci i p s = None"
  by (induction s arbitrary: i p) auto

lemma search_anchored:
  "search (Seq Bol r) ci 0 None s =
     (case rmatch r ci (0, None, s, []) of [] \<Rightarrow> None | m # ms \<Rightarrow> Some (0, m))"
  by (cases s) (auto simp: search_anchored_pos split: list.splits)

lemma rx_test_anchored: "rx_test (Seq Bol r) ci s \<longleftrightarrow> rmatch r ci (0, None, s, []) \<noteq> []"
  by (simp add: rx_test_def search_anchored split: list.splits)

lemma rx_match_anchored:
  "rx_match (Seq Bol r) ci s =
     (case rmatch r ci (0, None, s, []) of [] \<Rightarrow> None
      | (b, p, s', cs) # ms \<Rightarrow> Some (take b s, cs))"
  by (simp add: rx_match_def search_anchored split: list.splits)





subsection \<open>The recursion bound\<close>

text \<open>The bound is a device of the model. A run that does not stop at the bound gives the
  same result under every larger bound.\<close>

lemma fle_refl [simp]: "fle r r"
  by (simp add: fle_def)

lemma fle_out [simp]: "fle (Inl OutOfFuel) r"
  by (simp add: fle_def)

lemma fle_trans: "fle a b \<Longrightarrow> fle b c \<Longrightarrow> fle a c"
  by (auto simp: fle_def)

lemma fle_bind:
  assumes "fle a a'" and "\<And>x. a = Inr x \<Longrightarrow> a' = Inr x \<Longrightarrow> fle (k x) (k' x)"
  shows "fle (case a of Inl e \<Rightarrow> Inl e | Inr x \<Rightarrow> k x) (case a' of Inl e \<Rightarrow> Inl e | Inr x \<Rightarrow> k' x)"
  using assms by (auto simp: fle_def split: sum.splits)

lemma fle_emit: "fle r r' \<Longrightarrow> fle (emit b r) (emit b r')"
  by (auto simp: fle_def emit_def)

lemma gsub_st_fle:
  assumes "\<And>m cs st. fle (f m cs st) (g m cs st)"
  shows "fle (gsub_st r ci f i p k s st) (gsub_st r ci g i p k s st)"
proof (induction s arbitrary: i p k st)
  case Nil
  then show ?case using assms by (auto split: list.splits)
next
  case (Cons x xs)
  show ?case
  proof (cases "0 < k")
    case True
    then show ?thesis using Cons by simp
  next
    case False
    show ?thesis
    proof (cases "rmatch r ci (i, p, x # xs, [])")
      case Nil
      have "fle (case gsub_st r ci f (Suc i) (Some x) 0 xs st of Inl e \<Rightarrow> Inl e
                 | Inr (out, st') \<Rightarrow> Inr (x # out, st'))
                (case gsub_st r ci g (Suc i) (Some x) 0 xs st of Inl e \<Rightarrow> Inl e
                 | Inr (out, st') \<Rightarrow> Inr (x # out, st'))"
        by (rule fle_bind [OF Cons.IH]) simp
      then show ?thesis using False Nil by simp
    next
      case (Cons ma list)
      obtain b p' s' cs where ma: "ma = (b, p', s', cs)" by (cases ma) auto
      have "fle (case f (take (b - i) (x # xs)) cs st of Inl e \<Rightarrow> Inl e
                 | Inr (rep, st1) \<Rightarrow>
                    (case gsub_st r ci f (Suc i) (Some x) (if b = i then 0 else b - i - 1) xs st1 of
                       Inl e \<Rightarrow> Inl e
                     | Inr (out, st2) \<Rightarrow> Inr (rep @ (if b = i then [x] else []) @ out, st2)))
                (case g (take (b - i) (x # xs)) cs st of Inl e \<Rightarrow> Inl e
                 | Inr (rep, st1) \<Rightarrow>
                    (case gsub_st r ci g (Suc i) (Some x) (if b = i then 0 else b - i - 1) xs st1 of
                       Inl e \<Rightarrow> Inl e
                     | Inr (out, st2) \<Rightarrow> Inr (rep @ (if b = i then [x] else []) @ out, st2)))"
        apply (rule fle_bind [OF assms [of "take (b - i) (x # xs)" cs st]])
        apply clarsimp
        apply (intro conjI impI; rule fle_bind [OF Cons.IH]; simp)
        done
      then show ?thesis using False Cons ma by simp
    qed
  qed
qed

lemma replace_all_st_fle:
  "(\<And>m cs st. fle (f m cs st) (g m cs st)) \<Longrightarrow> fle (replace_all_st r ci f s st) (replace_all_st r ci g s st)"
  unfolding replace_all_st_def by (rule gsub_st_fle)

lemma run_rules_fle:
  assumes "list_all2 (\<lambda>r r'. \<forall>s st. fle (r s st) (r' s st)) rs rs'"
  shows "fle (run_rules rs s st) (run_rules rs' s st)"
  using assms
proof (induction rs rs' arbitrary: s st rule: list_all2_induct)
  case Nil
  then show ?case by simp
next
  case (Cons r rs r' rs')
  have "fle (case r s st of Inl e \<Rightarrow> Inl e | Inr (s', st') \<Rightarrow> run_rules rs s' st')
            (case r' s st of Inl e \<Rightarrow> Inl e | Inr (s', st') \<Rightarrow> run_rules rs' s' st')"
    by (rule fle_bind) (use Cons in \<open>auto simp del: run_rules.simps\<close>)
  then show ?case by simp
qed

lemma rule_color_fle:
  assumes "\<And>s st. fle (rec s st) (rec' s st)"
  shows "fle (rule_color rec s st) (rule_color rec' s st)"
  unfolding rule_color_def
  by (rule replace_all_st_fle) (auto simp: Let_def intro!: fle_bind [OF assms] split: option.splits)

lemma renderInline_fle_Suc: "fle (renderInline n ctx s st) (renderInline (Suc n) ctx s st)"
proof (induction n arbitrary: s st)
  case 0
  then show ?case by simp
next
  case (Suc n)
  show ?case
    by (simp del: run_rules.simps, intro impI run_rules_fle)
       (auto intro!: rule_color_fle Suc)
qed

lemma fle_bindI:
  "fle a a' \<Longrightarrow> (\<And>x. fle (k x) (k' x))
     \<Longrightarrow> fle (case a of Inl e \<Rightarrow> Inl e | Inr x \<Rightarrow> k x) (case a' of Inl e \<Rightarrow> Inl e | Inr x \<Rightarrow> k' x)"
  by (rule fle_bind)

lemma fle_case_prod:
  "(\<And>a b. fle (f a b) (g a b)) \<Longrightarrow> fle (case x of (a, b) \<Rightarrow> f a b) (case x of (a, b) \<Rightarrow> g a b)"
  by (cases x) simp

lemma fle_if:
  "(c \<Longrightarrow> fle a a') \<Longrightarrow> (\<not> c \<Longrightarrow> fle b b') \<Longrightarrow> fle (if c then a else b) (if c then a' else b')"
  by simp

lemma fle_case_option:
  "(x = None \<Longrightarrow> fle a a') \<Longrightarrow> (\<And>y. x = Some y \<Longrightarrow> fle (f y) (g y))
     \<Longrightarrow> fle (case x of None \<Rightarrow> a | Some y \<Rightarrow> f y) (case x of None \<Rightarrow> a' | Some y \<Rightarrow> g y)"
  by (cases x) simp_all

lemma fle_case_list:
  "(x = [] \<Longrightarrow> fle a a') \<Longrightarrow> (\<And>y ys. x = y # ys \<Longrightarrow> fle (f y ys) (g y ys))
     \<Longrightarrow> fle (case x of [] \<Rightarrow> a | y # ys \<Rightarrow> f y ys) (case x of [] \<Rightarrow> a' | y # ys \<Rightarrow> g y ys)"
  by (cases x) simp_all

lemmas fle_intros = fle_bindI fle_case_prod fle_if fle_case_option fle_case_list fle_emit fle_refl

lemma map_cells_fle:
  assumes "\<And>j c st. fle (f j c st) (g j c st)"
  shows "fle (map_cells f idx row st) (map_cells g idx row st)"
proof (induction row arbitrary: idx st)
  case Nil
  then show ?case by simp
next
  case (Cons c cs)
  show ?case
    unfolding map_cells.simps by (intro fle_intros assms Cons)
qed

lemma th_cell_fle: "fle (th_cell n ctx aligns j c st) (th_cell (Suc n) ctx aligns j c st)"
  unfolding th_cell_def by (intro fle_intros renderInline_fle_Suc)

lemma td_cell_fle: "fle (td_cell n ctx aligns j c st) (td_cell (Suc n) ctx aligns j c st)"
  unfolding td_cell_def by (intro fle_intros renderInline_fle_Suc)

lemma row_cells_fle: "fle (row_cells n ctx aligns row st) (row_cells (Suc n) ctx aligns row st)"
  unfolding row_cells_def by (rule map_cells_fle) (rule td_cell_fle)

lemma table_rows_fle: "fle (table_rows n ctx aligns rows st) (table_rows (Suc n) ctx aligns rows st)"
proof (induction rows arbitrary: st)
  case Nil
  then show ?case by simp
next
  case (Cons row rows)
  show ?case
    unfolding table_rows.simps by (intro fle_intros row_cells_fle Cons)
qed

lemma parseTableAt_fle:
  "fle (parseTableAt n ctx h d after st) (parseTableAt (Suc n) ctx h d after st)"
  unfolding parseTableAt_def Let_def
  by (intro fle_intros map_cells_fle th_cell_fle table_rows_fle)

lemma item_html_fle: "fle (item_html n ctx itemLines st) (item_html (Suc n) ctx itemLines st)"
  unfolding item_html_def Let_def by (intro fle_intros renderInline_fle_Suc)

lemma deflist_items_fle: "fle (deflist_items n ctx ls st) (deflist_items (Suc n) ctx ls st)"
proof (induction ls arbitrary: st)
  case Nil
  then show ?case by simp
next
  case (Cons l ls)
  show ?case
    unfolding deflist_items.simps by (intro fle_intros renderInline_fle_Suc Cons)
qed

lemma list_fle:
  "fle (parseListAt n ctx lines st) (parseListAt (Suc n) ctx lines st)
   \<and> fle (list_loop n ctx baseIndent lines items st) (list_loop (Suc n) ctx baseIndent lines items st)"
proof (induction n arbitrary: lines baseIndent items st)
  case 0
  then show ?case by simp
next
  case (Suc n)
  have p: "fle (parseListAt n ctx ls s) (parseListAt (Suc n) ctx ls s)" for ls s using Suc by blast
  have l: "fle (list_loop n ctx b ls its s) (list_loop (Suc n) ctx b ls its s)" for b ls its s using Suc by blast
  have 1: "fle (parseListAt (Suc n) ctx lines st) (parseListAt (Suc (Suc n)) ctx lines st)"
    by (subst (1 2) parseListAt.simps) (intro fle_intros l)
  have 2: "fle (list_loop (Suc n) ctx baseIndent lines items st) (list_loop (Suc (Suc n)) ctx baseIndent lines items st)"
    by (subst (1 2) list_loop.simps) (intro fle_intros l p item_html_fle)
  from 1 2 show ?case ..
qed

lemma blocks_loop_fle: "fle (blocks_loop n ctx lines st) (blocks_loop (Suc n) ctx lines st)"
proof (induction n arbitrary: lines st)
  case 0
  then show ?case by (cases lines) simp_all
next
  case (Suc n)
  show ?case
  proof (cases lines)
    case Nil
    then show ?thesis by simp
  next
    case (Cons line after)
    show ?thesis
      unfolding Cons
      by (subst (1 2) blocks_loop.simps)
         (intro fle_intros Suc renderInline_fle_Suc parseTableAt_fle conjunct1 [OF list_fle] deflist_items_fle)
  qed
qed

lemma parseBlocks_fle: "fle (parseBlocks n ctx src st) (parseBlocks (Suc n) ctx src st)"
  unfolding parseBlocks_def by (intro fle_intros blocks_loop_fle)

lemma footnote_items_fle: "fle (footnote_items n ctx ks st) (footnote_items (Suc n) ctx ks st)"
proof (induction ks arbitrary: st)
  case Nil
  then show ?case by simp
next
  case (Cons k ks)
  show ?case
    unfolding footnote_items.simps by (intro fle_intros parseBlocks_fle Cons)
qed

lemma footnote_section_fle: "fle (footnote_section n d st) (footnote_section (Suc n) d st)"
  unfolding footnote_section_def by (intro fle_intros footnote_items_fle)

lemma render_document_fle: "fle (render_document n src) (render_document (Suc n) src)"
  unfolding render_document_def Let_def by (intro fle_intros parseBlocks_fle footnote_section_fle)

lemma renderMarkdown_fle: "fle (renderMarkdown n src) (renderMarkdown (Suc n) src)"
  unfolding renderMarkdown_def by (intro fle_intros render_document_fle)

lemma renderMarkdown_fuel_mono:
  "n \<le> m \<Longrightarrow> renderMarkdown n src \<noteq> Inl OutOfFuel \<Longrightarrow> renderMarkdown m src = renderMarkdown n src"
proof (induction m)
  case 0
  then show ?case by simp
next
  case (Suc m)
  show ?case
  proof (cases "n = Suc m")
    case True
    then show ?thesis by simp
  next
    case False
    then have "renderMarkdown m src = renderMarkdown n src" using Suc by simp
    then show ?thesis using renderMarkdown_fle [of m src] Suc.prems(2) by (simp add: fle_def)
  qed
qed

subsection \<open>Line endings\<close>

lemma rmatch_newline_Nil: "rmatch re_newline False (i, p, [], []) = []"
  by (simp add: re_newline_def)

lemma rmatch_newline_Cons:
  "rmatch re_newline False (i, p, x # xs, []) =
     (if x = 13 then
        (case xs of
           [] \<Rightarrow> [(Suc i, Some 13, [], [])]
         | y # ys \<Rightarrow> if y = 10 then [(Suc (Suc i), Some 10, ys, []), (Suc i, Some 13, xs, [])]
                     else [(Suc i, Some 13, xs, [])])
      else [])"
  by (simp add: re_newline_def rep_loop_opt split: list.splits)

lemma gsub_newline_no_cr:
  "13 \<notin> set (gsub re_newline False (\<lambda>m cs. [10]) i p k s)"
proof (induction s arbitrary: i p k)
  case Nil
  then show ?case by (simp add: rmatch_newline_Nil)
next
  case (Cons x xs)
  then show ?case
    by (cases k) (auto simp: rmatch_newline_Cons split: list.splits)
qed

lemma gsub_newline_id:
  "13 \<notin> set s \<Longrightarrow> gsub re_newline False f i p 0 s = s"
  by (induction s arbitrary: i p) (auto simp: rmatch_newline_Nil rmatch_newline_Cons)

lemma normalize_newlines_idem: "normalize_newlines (normalize_newlines s) = normalize_newlines s"
  unfolding normalize_newlines_def replace_all_def
  by (rule gsub_newline_id) (rule gsub_newline_no_cr)

lemma normalize_newlines_Nil: "normalize_newlines s = [] \<longleftrightarrow> s = []"
  by (cases s) (auto simp: normalize_newlines_def replace_all_def rmatch_newline_Nil rmatch_newline_Cons
                     split: list.splits)

lemma line_ending_stages:
  "renderMarkdown fuel (normalize_newlines src) = renderMarkdown fuel src
   \<and> extractDefinitions (normalize_newlines src) = extractDefinitions src
   \<and> parseBlocks fuel ctx (normalize_newlines src) st = parseBlocks fuel ctx src st
   \<and> renderInline fuel ctx (normalize_newlines src) st = renderInline fuel ctx src st"
proof -
  have "renderInline fuel ctx (normalize_newlines src) st = renderInline fuel ctx src st"
    by (cases fuel) (simp_all add: normalize_newlines_idem normalize_newlines_Nil)
  then show ?thesis
    by (simp add: renderMarkdown_def render_document_def extractDefinitions_def parseBlocks_def
                  normalize_newlines_idem)
qed

lemma gsub_newline_unix:
  "gsub re_newline False (\<lambda>m cs. [10]) i p 0 s = unix_newlines s"
proof (induction s arbitrary: i p rule: unix_newlines.induct)
  case 1
  then show ?case by (simp add: rmatch_newline_Nil)
next
  case (2 x)
  then show ?case by (simp add: rmatch_newline_Nil rmatch_newline_Cons)
next
  case (3 x y ys)
  then show ?case by (simp add: rmatch_newline_Cons)
qed

lemma normalize_newlines_unix: "normalize_newlines s = unix_newlines s"
  unfolding normalize_newlines_def replace_all_def by (rule gsub_newline_unix)

text \<open>
  Claim C10. Replacing every \<open>\r\n\<close> and every \<open>\r\<close> of the input by \<open>\n\<close> changes nothing in the
  result of \<open>renderMarkdown\<close>, for every input and every recursion bound; the same holds for
  each stage that normalizes its argument: the definition extractor, the block parser and
  the inline renderer. The replaced input has no \<open>\r\<close> left.
\<close>

theorem line_ending_invariance:
  "renderMarkdown fuel (unix_newlines src) = renderMarkdown fuel src
   \<and> extractDefinitions (unix_newlines src) = extractDefinitions src
   \<and> parseBlocks fuel ctx (unix_newlines src) st = parseBlocks fuel ctx src st
   \<and> renderInline fuel ctx (unix_newlines src) st = renderInline fuel ctx src st
   \<and> 13 \<notin> set (unix_newlines src)"
proof -
  have "13 \<notin> set (normalize_newlines src)"
    unfolding normalize_newlines_def replace_all_def by (rule gsub_newline_no_cr)
  with line_ending_stages [of fuel src ctx st] show ?thesis
    by (simp add: normalize_newlines_unix)
qed

text \<open>The four encodings of a line break in one input.\<close>

lemma line_ending_examples:
  "unix_newlines (js ''a'' @ [13, 10] @ js ''b'' @ [13] @ js ''c'' @ [10] @ js ''d'' @ [13])
     = js ''a'' @ [10] @ js ''b'' @ [10] @ js ''c'' @ [10] @ js ''d'' @ [10]"
  by code_simp

subsection \<open>Escaping of plain text\<close>

text \<open>
  Claim C1. The ampersand of the plain paragraph \<open>a & b\<close> reaches the output as it is:
  \<open>renderInline\<close> escapes the text that one of its rules captures and returns the rest of
  the text unchanged.
\<close>

theorem plain_text_not_escaped:
  \<open>renderMarkdown (Suc (Suc k)) (js ''a & b'') = Inr (js ''<p class="my-1 text-sm leading-relaxed">a & b</p>'')\<close>
  by code_simp

text \<open>The same text between the markers of emphasis is escaped.\<close>

lemma emphasised_text_escaped:
  \<open>renderMarkdown (Suc (Suc k)) (js ''*a & b*'') =
     Inr (js ''<p class="my-1 text-sm leading-relaxed"><em class="italic">a &amp; b</em></p>'')\<close>
  by code_simp

subsection \<open>The footnote section\<close>


lemma bracket_not_indent: "\<not> rx_test re_indent_code False (91 # xs)"
  by (simp add: re_indent_code_def rx_test_anchored rep_loop_no_step)

lemma bracket_not_blank: "\<not> rx_test re_blank False (91 # xs)"
  by (simp add: re_blank_def rx_test_anchored rep_loop_no_step cls_mem_def is_space_def)











subsection \<open>The invariants of the state\<close>

lemma keepsD: "keeps f \<Longrightarrow> f st = Inr (r, st') \<Longrightarrow> state_ok st \<Longrightarrow> state_ok st'"
  by (auto simp: keeps_by_def)

lemma keeps3D: "keeps3 f \<Longrightarrow> f st = Inr (a, b, st') \<Longrightarrow> state_ok st \<Longrightarrow> state_ok st'"
  by (auto simp: keeps_by_def)

lemma keepsI: "(\<And>st r st'. f st = Inr (r, st') \<Longrightarrow> state_ok st \<Longrightarrow> state_ok st') \<Longrightarrow> keeps f"
  by (auto simp: keeps_by_def)

lemma keeps3I: "(\<And>st a b st'. f st = Inr (a, b, st') \<Longrightarrow> state_ok st \<Longrightarrow> state_ok st') \<Longrightarrow> keeps3 f"
  by (auto simp: keeps_by_def)

lemma set_alist_set: "set (alist_set k v m) \<subseteq> insert (k, v) (set m)"
  by (induction m) (auto split: if_splits)

lemma makePlaceholder_ok: "state_ok st \<Longrightarrow> state_ok (snd (makePlaceholder html st))"
  using set_alist_set [of "placeholder_key (placeholderId st)" html "placeholderMap st"]
  by (fastforce simp: state_ok_def vault_ok_def headings_ok_def makePlaceholder_def)

lemma keeps_protect: "keeps (protect html)"
  by (rule keepsI) (auto simp: protect_def dest: makePlaceholder_ok [where html = html])

lemma keeps_with_pre: "keeps (with_pre html m cs)"
  by (rule keepsI) (auto simp: with_pre_def split: prod.splits dest: makePlaceholder_ok [where html = "html (grp_or_empty cs 2)"])

lemma keeps_gsub_st:
  assumes "\<And>m cs. keeps (f m cs)"
  shows "keeps (gsub_st r ci f i p k s)"
proof (rule keepsI)
  fix st out st'
  show "gsub_st r ci f i p k s st = Inr (out, st') \<Longrightarrow> state_ok st \<Longrightarrow> state_ok st'"
  proof (induction s arbitrary: i p k st out st')
    case Nil
    then show ?case using assms
      by (auto split: if_splits list.splits dest: keepsD)
  next
    case (Cons x xs)
    show ?case
    proof (cases "0 < k")
      case True
      then show ?thesis using Cons by auto
    next
      case False
      show ?thesis
      proof (cases "rmatch r ci (i, p, x # xs, [])")
        case Nil
        then show ?thesis using Cons False by (auto split: sum.splits)
      next
        case (Cons ma list)
        obtain b p' s' cs where ma: "ma = (b, p', s', cs)" by (cases ma) auto
        from Cons.prems(1) False Cons ma
        obtain rep st1 out' where
          f: "f (take (b - i) (x # xs)) cs st = Inr (rep, st1)" and
          g: "gsub_st r ci f (Suc i) (Some x) (if b = i then 0 else b - i - 1) xs st1 = Inr (out', st')"
          by (auto split: sum.splits)
        from keepsD [OF assms f Cons.prems(2)] have "state_ok st1" .
        with Cons.IH [OF g] show ?thesis .
      qed
    qed
  qed
qed

lemma keeps_replace_all_st: "(\<And>m cs. keeps (f m cs)) \<Longrightarrow> keeps (replace_all_st r ci f s)"
  unfolding replace_all_st_def by (rule keeps_gsub_st)

lemma keeps_run_rules:
  assumes "\<And>r s. r \<in> set rs \<Longrightarrow> keeps (r s)"
  shows "keeps (run_rules rs s)"
proof (rule keepsI)
  fix st out st'
  show "run_rules rs s st = Inr (out, st') \<Longrightarrow> state_ok st \<Longrightarrow> state_ok st'"
    using assms
  proof (induction rs arbitrary: s st)
    case Nil
    then show ?case by simp
  next
    case (Cons r rs)
    from Cons.prems(1) obtain s1 st1 where
      a: "r s st = Inr (s1, st1)" and b: "run_rules rs s1 st1 = Inr (out, st')"
      by (auto split: sum.splits)
    have "keeps (r s)" using Cons.prems(3) by simp
    from keepsD [OF this a Cons.prems(2)] have "state_ok st1" .
    then show ?case using Cons.IH [OF b] Cons.prems(3) by simp
  qed
qed

lemma keeps_return: "keeps (\<lambda>st. Inr (x, st))"
  by (rule keepsI) auto

lemma keeps_ref_link: "keeps (ref_link_callback ctx m cs)"
  by (rule keepsI)
     (auto simp: ref_link_callback_def Let_def split: linkval.splits dest: keepsD [OF keeps_protect])

lemma keeps_ref_image: "keeps (ref_image_callback ctx m cs)"
  by (rule keepsI)
     (auto simp: ref_image_callback_def Let_def split: linkval.splits dest: keepsD [OF keeps_protect])

lemma keeps_simple_rules:
  "keeps (rule_br s)" "keeps (rule_escape s)" "keeps (rule_code_span s)" "keeps (rule_angle_url s)"
  "keeps (rule_angle_email s)" "keeps (rule_html_comment s)" "keeps (rule_html_tag s)"
  "keeps (rule_ref_image ctx s)" "keeps (rule_inline_image s)" "keeps (rule_ref_link ctx s)"
  "keeps (rule_inline_link s)" "keeps (rule_footnote_ref s)" "keeps (rule_highlight s)"
  "keeps (rule_bold_italic s)" "keeps (rule_bold s)" "keeps (rule_italic s)" "keeps (rule_strike s)"
  "keeps (rule_bare_url s)" "keeps (rule_bare_email s)" "keeps (rule_issue s)"
  "keeps (rule_mention s)" "keeps (rule_commit s)"
  unfolding rule_br_def rule_escape_def rule_code_span_def rule_angle_url_def rule_angle_email_def
    rule_html_comment_def rule_html_tag_def rule_ref_image_def rule_inline_image_def rule_ref_link_def
    rule_inline_link_def rule_footnote_ref_def rule_highlight_def rule_bold_italic_def rule_bold_def
    rule_italic_def rule_strike_def rule_bare_url_def rule_bare_email_def rule_issue_def
    rule_mention_def rule_commit_def
  by (intro keeps_replace_all_st keeps_protect keeps_with_pre keeps_ref_link keeps_ref_image
        | simp only: Let_def)+

lemma keeps_rule_emoji: "keeps (rule_emoji s)"
  unfolding rule_emoji_def
  by (rule keeps_replace_all_st, rule keepsI)
     (auto split: option.splits dest: keepsD [OF keeps_protect])

lemma keeps_rule_abbr: "keeps (rule_abbr ctx s)"
  unfolding rule_abbr_def
  by (rule keeps_run_rules) (auto simp: rule_abbr_one_def intro!: keeps_replace_all_st keeps_protect)

lemma keeps_rule_color:
  assumes "\<And>s. keeps (rec s)"
  shows "keeps (rule_color rec s)"
  unfolding rule_color_def
proof (rule keeps_replace_all_st, rule keepsI)
  fix m cs st r st'
  assume a: "(let lower = toLowerCase (grp_or_empty cs 1); content = grp_or_empty cs 2
         in if lower \<in> set namedColors
            then case rec content st of Inl e \<Rightarrow> Inl e
                 | Inr (inner, st') \<Rightarrow>
                     protect (js ''<span class=\"'' @ escapeHtmlAttr (js ''text-'' @ lower @ js ''-500'') @ js ''\">'' @
                        inner @ js ''</span>'') st'
            else case rx_match re_hex_color True lower of
                 None \<Rightarrow> Inr (m, st)
                 | Some (hm, hcs) \<Rightarrow>
                     (case rec content st of Inl e \<Rightarrow> Inl e
                      | Inr (inner, st') \<Rightarrow>
                          protect (js ''<span style=\"color:'' @ escapeHtmlAttr (js ''#'' @ grp_or_empty hcs 1) @ js ''\">'' @
                             inner @ js ''</span>'') st')) = Inr (r, st')"
    and ok: "state_ok st"
  show "state_ok st'"
    using a ok keepsD [OF assms, of "grp_or_empty cs 2" st]
    by (auto simp: Let_def split: if_splits sum.splits option.splits prod.splits
             dest: keepsD [OF keeps_protect])
qed

lemma keeps_renderInline: "keeps (renderInline n ctx s)"
proof (induction n arbitrary: s)
  case 0
  then show ?case by (simp add: keeps_by_def)
next
  case (Suc n)
  have "keeps (run_rules
        [rule_br, rule_escape, rule_code_span, rule_angle_url, rule_angle_email, rule_html_comment,
         rule_html_tag, rule_ref_image ctx, rule_inline_image, rule_ref_link ctx, rule_inline_link,
         rule_footnote_ref, rule_highlight, rule_bold_italic, rule_bold, rule_italic, rule_strike,
         rule_color (renderInline n ctx), rule_emoji, rule_bare_url, rule_bare_email, rule_issue,
         rule_mention, rule_commit, rule_abbr ctx] (normalize_newlines s))"
    by (rule keeps_run_rules)
       (auto intro: keeps_simple_rules keeps_rule_emoji keeps_rule_abbr keeps_rule_color Suc)
  then show ?case
    by (auto simp: keeps_by_def)
qed

lemmas renderInline_ok = keepsD [OF keeps_renderInline]

lemma keeps_map_cells:
  assumes "\<And>j c. keeps (f j c)"
  shows "keeps (map_cells f idx row)"
proof (rule keepsI)
  fix st hs st'
  show "map_cells f idx row st = Inr (hs, st') \<Longrightarrow> state_ok st \<Longrightarrow> state_ok st'"
  proof (induction row arbitrary: idx st hs)
    case Nil
    then show ?case by simp
  next
    case (Cons c cs)
    from Cons.prems(1) obtain h st1 hs' where
      a: "f idx c st = Inr (h, st1)" and b: "map_cells f (Suc idx) cs st1 = Inr (hs', st')"
      by (auto split: sum.splits)
    from keepsD [OF assms a Cons.prems(2)] Cons.IH [OF b] show ?case by blast
  qed
qed

lemma keeps_th_cell: "keeps (th_cell fuel ctx aligns j c)"
  by (rule keepsI) (auto simp: th_cell_def split: sum.splits dest: renderInline_ok)

lemma keeps_td_cell: "keeps (td_cell fuel ctx aligns j c)"
  by (rule keepsI) (auto simp: td_cell_def split: sum.splits dest: renderInline_ok)

lemma keeps_row_cells: "keeps (row_cells fuel ctx aligns row)"
  unfolding row_cells_def by (rule keeps_map_cells) (rule keeps_td_cell)

lemma keeps_table_rows: "keeps (table_rows fuel ctx aligns rows)"
proof (rule keepsI)
  fix st trs st'
  show "table_rows fuel ctx aligns rows st = Inr (trs, st') \<Longrightarrow> state_ok st \<Longrightarrow> state_ok st'"
  proof (induction rows arbitrary: st trs)
    case Nil
    then show ?case by simp
  next
    case (Cons row rows)
    from Cons.prems(1) obtain tds st1 trs' where
      a: "row_cells fuel ctx aligns row st = Inr (tds, st1)"
      and b: "table_rows fuel ctx aligns rows st1 = Inr (trs', st')"
      by (auto split: sum.splits)
    from keepsD [OF keeps_row_cells a Cons.prems(2)] Cons.IH [OF b] show ?case by blast
  qed
qed

lemma keeps_parseTableAt: "keeps3 (parseTableAt fuel ctx h d after)"
  by (rule keeps3I)
     (auto simp: parseTableAt_def Let_def split: sum.splits
           dest!: keepsD [OF keeps_map_cells, OF keeps_th_cell] keepsD [OF keeps_table_rows])

lemma keeps_item_html: "keeps (item_html fuel ctx itemLines)"
  by (rule keepsI) (auto simp: item_html_def Let_def split: sum.splits dest: renderInline_ok)

lemma keeps_list:
  "keeps3 (parseListAt n ctx lines) \<and> keeps3 (list_loop n ctx baseIndent lines items)"
proof (induction n arbitrary: lines baseIndent items)
  case 0
  then show ?case by (simp add: keeps_by_def)
next
  case (Suc n)
  have p: "keeps3 (parseListAt n ctx ls)" for ls using Suc by blast
  have l: "keeps3 (list_loop n ctx b ls its)" for b ls its using Suc by blast
  have "keeps3 (parseListAt (Suc n) ctx lines)"
    by (rule keeps3I)
       (auto split: list.splits option.splits sum.splits prod.splits dest: keeps3D [OF l])
  moreover have "keeps3 (list_loop (Suc n) ctx baseIndent lines items)"
    by (rule keeps3I)
       (auto split: list.splits option.splits sum.splits prod.splits if_splits
             dest: keeps3D [OF l] keeps3D [OF p] keepsD [OF keeps_item_html])
  ultimately show ?case ..
qed

lemma keeps_deflist_items: "keeps3 (deflist_items fuel ctx ls)"
proof (rule keeps3I)
  fix st items after st'
  show "deflist_items fuel ctx ls st = Inr (items, after, st') \<Longrightarrow> state_ok st \<Longrightarrow> state_ok st'"
  proof (induction ls arbitrary: st items after)
    case Nil
    then show ?case by simp
  next
    case (Cons l ls)
    show ?case
    proof (cases "rx_match re_deflist False l")
      case None
      then show ?thesis using Cons.prems by simp
    next
      case (Some a)
      obtain m cs where a: "a = (m, cs)" by (cases a)
      from Cons.prems(1) Some a obtain dt st1 dd st2 items' where
        1: "renderInline fuel ctx (trim (grp_or_empty cs 1)) st = Inr (dt, st1)" and
        2: "renderInline fuel ctx (trim (grp_or_empty cs 2)) st1 = Inr (dd, st2)" and
        3: "deflist_items fuel ctx ls st2 = Inr (items', after, st')"
        by (auto split: sum.splits)
      from renderInline_ok [OF 1 Cons.prems(2)] have "state_ok st1" .
      from renderInline_ok [OF 2 this] have "state_ok st2" .
      with Cons.IH [OF 3] show ?thesis by blast
    qed
  qed
qed

lemma emit_Inr: "emit b r = Inr (out, st') \<Longrightarrow> \<exists>out'. r = Inr (out', st')"
  by (auto simp: emit_def split: sum.splits)

lemma heading_push_ok:
  "state_ok st \<Longrightarrow> state_ok (st\<lparr>headings := headings st @ [(l, t, slugify t)]\<rparr>)"
  by (auto simp: state_ok_def vault_ok_def headings_ok_def)

lemma keeps_blocks_loop: "keeps (blocks_loop n ctx lines)"
proof (induction n arbitrary: lines)
  case 0
  then show ?case by (cases lines) (simp_all add: keeps_by_def)
next
  case (Suc n)
  have ih: "blocks_loop n ctx ls st = Inr (out, st') \<Longrightarrow> state_ok st \<Longrightarrow> state_ok st'" for ls st out st'
    using keepsD [OF Suc] by blast
  show ?case
  proof (cases lines)
    case Nil
    then show ?thesis by (simp add: keeps_by_def)
  next
    case (Cons line after)
    show ?thesis
      unfolding Cons
      by (rule keepsI, simp only: blocks_loop.simps)
         (auto simp del: deflist_items.simps
               split: if_splits option.splits sum.splits prod.splits
               dest!: emit_Inr
               dest: ih renderInline_ok keeps3D [OF keeps_parseTableAt]
                     keeps3D [OF conjunct1 [OF keeps_list]] keeps3D [OF keeps_deflist_items]
                     heading_push_ok)
  qed
qed

lemma keeps_parseBlocks: "keeps (parseBlocks fuel ctx src)"
  by (rule keepsI) (auto simp: parseBlocks_def split: sum.splits dest: keepsD [OF keeps_blocks_loop])

lemma keeps_footnote_items: "keeps (footnote_items fuel ctx ks)"
proof (rule keepsI)
  fix st items st'
  show "footnote_items fuel ctx ks st = Inr (items, st') \<Longrightarrow> state_ok st \<Longrightarrow> state_ok st'"
  proof (induction ks arbitrary: st items)
    case Nil
    then show ?case by simp
  next
    case (Cons k ks)
    from Cons.prems(1) obtain body st1 items' where
      a: "parseBlocks fuel ctx (case map_of (footnoteDefs ctx) k of Some b \<Rightarrow> b | None \<Rightarrow> []) st = Inr (body, st1)"
      and b: "footnote_items fuel ctx ks st1 = Inr (items', st')"
      by (auto split: sum.splits)
    from keepsD [OF keeps_parseBlocks a Cons.prems(2)] Cons.IH [OF b] show ?case by blast
  qed
qed

lemma init_state_ok: "state_ok init_state"
  by (simp add: state_ok_def vault_ok_def headings_ok_def init_state_def)

lemma render_document_ok: "render_document fuel src = Inr (html, st) \<Longrightarrow> state_ok st"
  by (auto simp: render_document_def footnote_section_def Let_def
           split: sum.splits if_splits
           dest!: keepsD [OF keeps_parseBlocks] keepsD [OF keeps_footnote_items]
           intro: init_state_ok)

subsection \<open>Placeholder keys and the input\<close>

lemma starts_with_set: "starts_with s w \<Longrightarrow> set w \<subseteq> set s"
  by (induction s w rule: starts_with.induct) auto

lemma str_includes_set: "str_includes s w \<Longrightarrow> set w \<subseteq> set s"
proof (induction s)
  case Nil
  then show ?case by simp
next
  case (Cons a s)
  from Cons.prems have "starts_with (a # s) w \<or> str_includes s w" by simp
  then show ?case using starts_with_set [of "a # s" w] Cons.IH by auto
qed

lemma split_join_id: "c \<in> set key \<Longrightarrow> c \<notin> set s \<Longrightarrow> split_join key html s = s"
proof (induction s)
  case Nil
  then show ?case by simp
next
  case (Cons x xs)
  have "\<not> starts_with (x # xs) key" using Cons.prems starts_with_set [of "x # xs" key] by auto
  then show ?case using Cons by simp
qed

lemma restorePlaceholders_id:
  assumes "57344 \<notin> set s" and "\<forall>kh \<in> set pm. \<exists>n. fst kh = placeholder_key n"
  shows "restorePlaceholders pm s = s"
  unfolding restorePlaceholders_def using assms(2)
proof (induction pm)
  case Nil
  then show ?case by simp
next
  case (Cons kh pm)
  obtain key html where kh: "kh = (key, html)" by (cases kh)
  then obtain n where "key = placeholder_key n" using Cons.prems by auto
  then have "57344 \<in> set key" by (simp add: placeholder_key_def)
  then have "split_join key html s = s" using assms(1) by (rule split_join_id)
  then show ?case using Cons kh by simp
qed

text \<open>
  Claim C3, as amended. For an input without the code unit U+E000, every key that the vault
  holds at the end of \<open>renderMarkdown\<close> (before the placeholders are restored) is a key made
  by \<open>makePlaceholder\<close>, no substring of the input is equal to it, and the final pass
  \<open>restorePlaceholders\<close> with this vault leaves the text of the input as it is.
\<close>

theorem placeholder_keys_not_in_input:
  assumes "57344 \<notin> set src"
    and "render_document fuel src = Inr (html, st)"
    and "(key, frag) \<in> set (placeholderMap st)"
  shows "(\<exists>n. key = placeholder_key n) \<and> \<not> str_includes src key
         \<and> restorePlaceholders (placeholderMap st) src = src"
proof -
  have ok: "state_ok st" using assms(2) by (rule render_document_ok)
  then obtain n where k: "key = placeholder_key n"
    using assms(3) by (fastforce simp: state_ok_def vault_ok_def)
  then have "57344 \<in> set key" by (simp add: placeholder_key_def)
  then have "\<not> str_includes src key" using assms(1) str_includes_set by blast
  moreover have "restorePlaceholders (placeholderMap st) src = src"
    using assms(1) ok by (intro restorePlaceholders_id) (auto simp: state_ok_def vault_ok_def)
  ultimately show ?thesis using k by blast
qed

theorem placeholder_keys_not_in_input_witness:
  \<open>57344 \<notin> set ([96] @ js ''x'' @ [96])
   \<and> render_document 2 ([96] @ js ''x'' @ [96]) =
       Inr (js ''<p class="my-1 text-sm leading-relaxed">'' @ placeholder_key 0 @ js ''</p>'',
            \<lparr>placeholderId = 1,
             placeholderMap = [(placeholder_key 0, js ''<code class="rounded bg-muted px-1 py-0.5 text-[0.8em] font-mono">x</code>'')],
             headings = []\<rparr>)
   \<and> \<not> str_includes ([96] @ js ''x'' @ [96]) (placeholder_key 0)
   \<and> restorePlaceholders [(placeholder_key 0, js ''<code class="rounded bg-muted px-1 py-0.5 text-[0.8em] font-mono">x</code>'')] ([96] @ js ''x'' @ [96]) = [96] @ js ''x'' @ [96]\<close>
proof -
  have a: "57344 \<notin> set ([96] @ js ''x'' @ [96])" by code_simp
  have b: \<open>render_document 2 ([96] @ js ''x'' @ [96]) =
       Inr (js ''<p class="my-1 text-sm leading-relaxed">'' @ placeholder_key 0 @ js ''</p>'',
            \<lparr>placeholderId = 1,
             placeholderMap = [(placeholder_key 0, js ''<code class="rounded bg-muted px-1 py-0.5 text-[0.8em] font-mono">x</code>'')],
             headings = []\<rparr>)\<close>
    by code_simp
  from placeholder_keys_not_in_input [OF a b, of "placeholder_key 0"] a b
  show ?thesis by simp
qed

text \<open>The claim as stated fails on an input that holds the text of the first key (U+E000, the
  digit 0, U+E001), a space and a code span: the final pass replaces what the author typed
  by the markup of the code span.\<close>

theorem placeholder_collision_counterexample:
  \<open>renderMarkdown 3 ([57344, 48, 57345] @ js '' '' @ [96] @ js ''x'' @ [96]) =
     Inr (js ''<p class="my-1 text-sm leading-relaxed"><code class="rounded bg-muted px-1 py-0.5 text-[''
       @ js ''0.8em] font-mono">x</code> <code class="rounded bg-muted px-1 py-0.5 text-[0.8em] font-m''
       @ js ''ono">x</code></p>'')\<close>
  by code_simp

subsection \<open>Short table rows\<close>

lemma map_cells_cells:
  "map_cells f idx row st = Inr (hs, st')
   \<Longrightarrow> list_all2 (\<lambda>ic h. \<exists>s s'. f (fst ic) (snd ic) s = Inr (h, s')) (zip [idx..<idx + length row] row) hs"
proof (induction row arbitrary: idx st hs st')
  case Nil
  then show ?case by simp
next
  case (Cons c cs)
  from Cons.prems obtain h st1 hs' where
    1: "f idx c st = Inr (h, st1)" and 2: "map_cells f (Suc idx) cs st1 = Inr (hs', st')" and 3: "hs = h # hs'"
    by (auto split: sum.splits prod.splits)
  have u: "[idx..<idx + length (c # cs)] = idx # [Suc idx..<Suc idx + length cs]"
    by (subst upt_rec) simp
  from Cons.IH [OF 2] 1 show ?case
    unfolding u 3 by auto
qed

lemma map_cells_error:
  "map_cells f idx row st = Inl e \<Longrightarrow> \<exists>cell \<in> set row. \<exists>j s. f j cell s = Inl e"
  by (induction row arbitrary: idx st) (auto split: sum.splits prod.splits)

lemma td_cell_error: "td_cell fuel ctx aligns j cell s = Inl e \<Longrightarrow> renderInline fuel ctx cell s = Inl e"
  by (auto simp: td_cell_def split: sum.splits prod.splits)

lemma th_cell_error: "th_cell fuel ctx aligns j cell s = Inl e \<Longrightarrow> renderInline fuel ctx cell s = Inl e"
  by (auto simp: th_cell_def split: sum.splits prod.splits)

lemma td_cell_Inr:
  \<open>td_cell fuel ctx aligns j cell s = Inr (h, s')
   \<Longrightarrow> \<exists>inner. renderInline fuel ctx cell s = Inr (inner, s')
        \<and> h = js ''<td'' @ align_style aligns j @ js '' class="border-b border-border/40 px-2 py-1 align-top">''
              @ inner @ js ''</td>''\<close>
  by (auto simp: td_cell_def split: sum.splits prod.splits)

lemma row_cells_tds:
  assumes "row_cells fuel ctx aligns row st = Inr (tds, st')"
  shows "list_all2 (is_td fuel ctx aligns) (zip [0..<length row] row) tds"
proof -
  from map_cells_cells [OF assms [unfolded row_cells_def]]
  have "list_all2 (\<lambda>ic h. \<exists>s s'. td_cell fuel ctx aligns (fst ic) (snd ic) s = Inr (h, s'))
          (zip [0..<length row] row) tds"
    by simp
  then show ?thesis
    by (rule list_all2_mono) (auto simp: is_td_def dest!: td_cell_Inr)
qed

lemma table_rows_trs:
  "table_rows fuel ctx aligns rows st = Inr (trs, st') \<Longrightarrow> list_all2 (is_tr fuel ctx aligns) rows trs"
proof (induction rows arbitrary: st trs st')
  case Nil
  then show ?case by simp
next
  case (Cons row rows)
  from Cons.prems obtain tds st1 trs' where
    1: "row_cells fuel ctx aligns row st = Inr (tds, st1)" and
    2: "table_rows fuel ctx aligns rows st1 = Inr (trs', st')" and
    3: "trs = (js ''<tr>'' @ concat tds @ js ''</tr>'') # trs'"
    by (auto split: sum.splits prod.splits)
  have "is_tr fuel ctx aligns row (js ''<tr>'' @ concat tds @ js ''</tr>'')"
    unfolding is_tr_def using row_cells_tds [OF 1] by blast
  with Cons.IH [OF 2] show ?case unfolding 3 by simp
qed

lemma table_rows_error:
  "table_rows fuel ctx aligns rows st = Inl e
   \<Longrightarrow> \<exists>row \<in> set rows. \<exists>cell \<in> set row. \<exists>s. renderInline fuel ctx cell s = Inl e"
proof (induction rows arbitrary: st)
  case Nil
  then show ?case by simp
next
  case (Cons row rows)
  show ?case
  proof (cases "row_cells fuel ctx aligns row st")
    case (Inl e')
    with Cons.prems have "e' = e" by simp
    with Inl map_cells_error [of "td_cell fuel ctx aligns" 0 row st e] td_cell_error show ?thesis
      unfolding row_cells_def by (metis list.set_intros(1))
  next
    case (Inr a)
    obtain tds st1 where a: "a = (tds, st1)" by (cases a) auto
    from Cons.prems have "table_rows fuel ctx aligns rows st1 = Inl e"
      by (auto simp: Inr a split: sum.splits prod.splits)
    from Cons.IH [OF this] show ?thesis by auto
  qed
qed

text \<open>
  Claim C4, as amended. When \<open>parseTableAt\<close> returns, its result is the \<open>table\<close> element whose
  body holds one \<open>tr\<close> element for every body line, and the \<open>tr\<close> of a line holds one \<open>td\<close> for
  every cell the line splits into, in order, each with the rendered text of its cell:
  whatever the number of header cells, no cell is added to a short row. A row by itself
  raises nothing: when \<open>parseTableAt\<close> fails, the rendering of one cell of the header line or
  of a body line has failed with the same error.
\<close>

theorem short_row_cells:
  \<open>(\<forall>html rest st'. parseTableAt fuel ctx headerLine dividerLine after st = Inr (html, rest, st') \<longrightarrow>
      (\<exists>ths trs.
         html = js ''<table class="my-3 w-full border-collapse overflow-hidden rounded-md border border-border/60 text-xs">''
                @ js ''<thead class="bg-muted/40"><tr>'' @ concat ths @ js ''</tr></thead>''
                @ js ''<tbody>'' @ concat trs @ js ''</tbody>'' @ js ''</table>''
         \<and> length ths = length (splitRow headerLine)
         \<and> list_all2 (\<lambda>line tr. is_tr fuel ctx (table_aligns dividerLine) (splitRow line) tr)
              (takeWhile is_table_row after) trs))
   \<and> (\<forall>e. parseTableAt fuel ctx headerLine dividerLine after st = Inl e \<longrightarrow>
        (\<exists>line \<in> set (headerLine # takeWhile is_table_row after).
           \<exists>cell \<in> set (splitRow line). \<exists>s. renderInline fuel ctx cell s = Inl e))\<close>
proof (intro conjI allI impI)
  fix html rest st'
  assume p: "parseTableAt fuel ctx headerLine dividerLine after st = Inr (html, rest, st')"
  let ?al = "table_aligns dividerLine"
  from p obtain ths st1 trs where
    1: "map_cells (th_cell fuel ctx ?al) 0 (splitRow headerLine) st = Inr (ths, st1)" and
    2: "table_rows fuel ctx ?al (map splitRow (takeWhile is_table_row after)) st1 = Inr (trs, st')" and
    3: \<open>html = js ''<table class="my-3 w-full border-collapse overflow-hidden rounded-md border border-border/60 text-xs">''
                @ js ''<thead class="bg-muted/40"><tr>'' @ concat ths @ js ''</tr></thead>''
                @ js ''<tbody>'' @ concat trs @ js ''</tbody>'' @ js ''</table>''\<close>
    by (auto simp: parseTableAt_def Let_def split: sum.splits prod.splits)
  from map_cells_cells [OF 1] have l: "length ths = length (splitRow headerLine)"
    by (auto dest: list_all2_lengthD)
  from table_rows_trs [OF 2]
  have "list_all2 (\<lambda>line tr. is_tr fuel ctx ?al (splitRow line) tr) (takeWhile is_table_row after) trs"
    by (simp add: list_all2_map1)
  with 3 l show \<open>\<exists>ths trs.
         html = js ''<table class="my-3 w-full border-collapse overflow-hidden rounded-md border border-border/60 text-xs">''
                @ js ''<thead class="bg-muted/40"><tr>'' @ concat ths @ js ''</tr></thead>''
                @ js ''<tbody>'' @ concat trs @ js ''</tbody>'' @ js ''</table>''
         \<and> length ths = length (splitRow headerLine)
         \<and> list_all2 (\<lambda>line tr. is_tr fuel ctx (table_aligns dividerLine) (splitRow line) tr)
              (takeWhile is_table_row after) trs\<close>
    by blast
next
  fix e
  assume p: "parseTableAt fuel ctx headerLine dividerLine after st = Inl e"
  let ?al = "table_aligns dividerLine"
  show "\<exists>line \<in> set (headerLine # takeWhile is_table_row after).
           \<exists>cell \<in> set (splitRow line). \<exists>s. renderInline fuel ctx cell s = Inl e"
  proof (cases "map_cells (th_cell fuel ctx ?al) 0 (splitRow headerLine) st")
    case (Inl e')
    with p have "e' = e" by (simp add: parseTableAt_def Let_def)
    with Inl map_cells_error [of "th_cell fuel ctx ?al" 0 "splitRow headerLine" st e] th_cell_error
    show ?thesis by (metis list.set_intros(1))
  next
    case (Inr a)
    obtain ths st1 where a: "a = (ths, st1)" by (cases a) auto
    from p have "table_rows fuel ctx ?al (map splitRow (takeWhile is_table_row after)) st1 = Inl e"
      by (auto simp: parseTableAt_def Let_def Inr a split: sum.splits prod.splits)
    from table_rows_error [OF this] show ?thesis by auto
  qed
qed

theorem short_row_cells_witness:
  \<open>parseTableAt 2 (extractDefinitions []) (js ''|a|b|'') (js ''|---|---|'') [js ''|c|''] init_state
     = Inr (js ''<table class="my-3 w-full border-collapse overflow-hidden rounded-md border border-borde''
       @ js ''r/60 text-xs"><thead class="bg-muted/40"><tr><th class="border-b border-border/60 px-2 p''
       @ js ''y-1 text-left text-[0.75rem] font-medium text-muted-foreground">a</th><th class="border-''
       @ js ''b border-border/60 px-2 py-1 text-left text-[0.75rem] font-medium text-muted-foreground"''
       @ js ''>b</th></tr></thead><tbody><tr><td class="border-b border-border/40 px-2 py-1 align-top"''
       @ js ''>c</td></tr></tbody></table>'', [], init_state)
   \<and> length (splitRow (js ''|a|b|'')) = 2
   \<and> splitRow (js ''|c|'') = [js ''c'']
   \<and> (\<exists>trs. list_all2 (\<lambda>line tr. is_tr 2 (extractDefinitions []) (table_aligns (js ''|---|---|'')) (splitRow line) tr)
              [js ''|c|''] trs)
   \<and> parseTableAt 2 (extractDefinitions []) (js ''|a|'') (js ''|---|'') [js ''|[x][constructor]|''] init_state
     = Inl TypeError
   \<and> (\<exists>line \<in> set [js ''|a|'', js ''|[x][constructor]|''].
         \<exists>cell \<in> set (splitRow line). \<exists>s. renderInline 2 (extractDefinitions []) cell s = Inl TypeError)\<close>
proof -
  let ?ctx = "extractDefinitions []"
  have e: \<open>parseTableAt 2 ?ctx (js ''|a|b|'') (js ''|---|---|'') [js ''|c|''] init_state
     = Inr (js ''<table class="my-3 w-full border-collapse overflow-hidden rounded-md border border-borde''
       @ js ''r/60 text-xs"><thead class="bg-muted/40"><tr><th class="border-b border-border/60 px-2 p''
       @ js ''y-1 text-left text-[0.75rem] font-medium text-muted-foreground">a</th><th class="border-''
       @ js ''b border-border/60 px-2 py-1 text-left text-[0.75rem] font-medium text-muted-foreground"''
       @ js ''>b</th></tr></thead><tbody><tr><td class="border-b border-border/40 px-2 py-1 align-top"''
       @ js ''>c</td></tr></tbody></table>'', [], init_state)\<close>
    by code_simp
  have h: "length (splitRow (js ''|a|b|'')) = 2" by code_simp
  have c: "splitRow (js ''|c|'') = [js ''c'']" by code_simp
  have t: "takeWhile is_table_row [js ''|c|''] = [js ''|c|'']" by code_simp
  have f: "parseTableAt 2 ?ctx (js ''|a|'') (js ''|---|'') [js ''|[x][constructor]|''] init_state = Inl TypeError"
    by code_simp
  have t2: "takeWhile is_table_row [js ''|[x][constructor]|''] = [js ''|[x][constructor]|'']" by code_simp
  from short_row_cells [of 2 ?ctx "js ''|a|b|''" "js ''|---|---|''" "[js ''|c|'']" init_state] e
  have 1: "\<exists>trs. list_all2 (\<lambda>line tr. is_tr 2 ?ctx (table_aligns (js ''|---|---|'')) (splitRow line) tr)
              [js ''|c|''] trs"
    unfolding t by blast
  from short_row_cells [of 2 ?ctx "js ''|a|''" "js ''|---|''" "[js ''|[x][constructor]|'']" init_state] f
  have 2: "\<exists>line \<in> set [js ''|a|'', js ''|[x][constructor]|''].
         \<exists>cell \<in> set (splitRow line). \<exists>s. renderInline 2 ?ctx cell s = Inl TypeError"
    unfolding t2 by blast
  from e h c 1 f 2 show ?thesis by blast
qed

text \<open>The claim as stated fails on a table of two columns whose only body row is \<open>|c|\<close>: the
  emitted row has one cell.\<close>

theorem short_row_counterexample:
  \<open>renderMarkdown 3 (js ''|a|b|'' @ [10] @ js ''|---|---|'' @ [10] @ js ''|c|'') =
     Inr (js ''<table class="my-3 w-full border-collapse overflow-hidden rounded-md border border-borde''
       @ js ''r/60 text-xs"><thead class="bg-muted/40"><tr><th class="border-b border-border/60 px-2 p''
       @ js ''y-1 text-left text-[0.75rem] font-medium text-muted-foreground">a</th><th class="border-''
       @ js ''b border-border/60 px-2 py-1 text-left text-[0.75rem] font-medium text-muted-foreground"''
       @ js ''>b</th></tr></thead><tbody><tr><td class="border-b border-border/40 px-2 py-1 align-top"''
       @ js ''>c</td></tr></tbody></table>'')\<close>
  by code_simp

subsection \<open>Forward references\<close>

lemma map_of_alist_set: "map_of (alist_set k v m) k' = (if k' = k then Some v else map_of m k')"
  by (induction m) auto

lemma link_bound_get: "link_bound L k d \<Longrightarrow> link_get L k = Def d"
  by (auto simp: link_bound_def link_get_def split: if_splits)

lemma link_bound_set: "link_bound (link_set k d L) k d"
  by (auto simp: link_bound_def link_set_def map_of_alist_set)

lemma link_bound_other: "k' \<noteq> k \<Longrightarrow> link_bound L k d \<Longrightarrow> link_bound (link_set k' d' L) k d"
  by (auto simp: link_bound_def link_set_def map_of_alist_set split: if_splits)

lemma footnote_cont_subset: "set (snd (footnote_cont acc ls)) \<subseteq> set ls"
  by (induction ls arbitrary: acc) auto

lemma extract_loop_keeps_link:
  "link_bound L k d \<Longrightarrow> \<forall>l \<in> set ls. \<not> redefines k l
     \<Longrightarrow> link_bound (fst (snd (extract_loop ls remaining L F A))) k d"
proof (induction ls remaining L F A rule: extract_loop.induct)
  case (1 remaining L F A)
  then show ?case by simp
next
  case (2 line ls remaining L F A)
  have nr: "\<not> redefines k line" using "2.prems" by simp
  show ?case
  proof (cases "rx_match re_footnote_def False line")
    case (Some a)
    obtain m cs where a: "a = (m, cs)" by (cases a)
    have "\<forall>l \<in> set (snd (footnote_cont (grp_or_empty cs 2) ls)). \<not> redefines k l"
      using "2.prems"(2) footnote_cont_subset by fastforce
    then show ?thesis using "2.IH" "2.prems"(1) Some a by simp
  next
    case None
    have rest: "\<forall>l \<in> set ls. \<not> redefines k l" using "2.prems"(2) by simp
    show ?thesis
    proof (cases "rx_match re_abbr_def False line")
      case (Some a)
      then show ?thesis using "2.IH" "2.prems"(1) None rest by (cases a) simp
    next
      case na: None
      show ?thesis
      proof (cases "rx_match re_link_def False line")
        case (Some a)
        obtain m cs where a: "a = (m, cs)" by (cases a)
        have "toLowerCase (grp_or_empty cs 1) \<noteq> k" using nr Some a by (simp add: redefines_def)
        from link_bound_other [OF this "2.prems"(1)]
        show ?thesis using "2.IH" None na Some a rest by simp
      next
        case nl: None
        show ?thesis using "2.IH" "2.prems"(1) None na nl rest by simp
      qed
    qed
  qed
qed

lemma link_def_starts:
  "rx_match re_link_def False l = Some (m, cs) \<Longrightarrow> \<exists>xs. l = 91 # xs"
  by (cases l) (auto simp: re_link_def_def rx_match_anchored split: list.splits if_splits)

lemma bracket_not_abbr: "rx_match re_abbr_def False (91 # xs) = None"
  by (simp add: re_abbr_def_def rx_match_anchored)

lemma footnote_cont_stops:
  assumes "\<not> rx_test re_indent_code False dl" "\<not> rx_test re_blank False dl"
  shows "\<exists>acc' xs'. footnote_cont acc (xs @ dl # post) = (acc', xs' @ dl # post) \<and> length xs' \<le> length xs"
proof (induction xs arbitrary: acc)
  case Nil
  then show ?case using assms by simp
next
  case (Cons x xs)
  show ?case
    using Cons [of "acc @ [10] @ replace_first re_indent_strip False (\<lambda>m cs. []) x"] Cons [of "acc @ [10]"]
    by (auto intro: le_SucI)
qed

lemma extract_loop_reaches:
  assumes dl: "rx_match re_footnote_def False dl = None" "rx_match re_link_def False dl = Some (m, cs)"
  shows "\<exists>remaining' L' F' A'.
     extract_loop (pre @ dl # post) remaining L F A =
     extract_loop post remaining'
       (link_set (toLowerCase (grp_or_empty cs 1)) \<lparr>url = grp_or_empty cs 2, title = grp cs 3\<rparr> L') F' A'"
proof (induction "length pre" arbitrary: pre remaining L F A rule: less_induct)
  case less
  obtain xs where st: "dl = 91 # xs" using link_def_starts [OF dl(2)] by blast
  have na: "rx_match re_abbr_def False dl = None" unfolding st by (rule bracket_not_abbr)
  have ni: "\<not> rx_test re_indent_code False dl" "\<not> rx_test re_blank False dl"
    unfolding st by (rule bracket_not_indent, rule bracket_not_blank)
  show ?case
  proof (cases pre)
    case Nil
    then show ?thesis using dl na by auto
  next
    case (Cons x pre')
    have ih: "\<exists>remaining' L' F' A'.
       extract_loop (ys @ dl # post) r1 L1 F1 A1 =
       extract_loop post remaining'
         (link_set (toLowerCase (grp_or_empty cs 1)) \<lparr>url = grp_or_empty cs 2, title = grp cs 3\<rparr> L') F' A'"
      if "length ys \<le> length pre'" for ys r1 L1 F1 A1
      using less [of ys] that Cons by simp
    show ?thesis
    proof (cases "rx_match re_footnote_def False x")
      case (Some a)
      obtain m' cs' where a: "a = (m', cs')" by (cases a)
      obtain acc' xs' where
        fc: "footnote_cont (grp_or_empty cs' 2) (pre' @ dl # post) = (acc', xs' @ dl # post)"
        and le: "length xs' \<le> length pre'"
        using footnote_cont_stops [OF ni] by blast
      show ?thesis using ih [OF le] Some a fc Cons by simp
    next
      case None
      show ?thesis using ih [of pre'] None Cons by (auto split: option.splits)
    qed
  qed
qed

text \<open>
  Claim C5. Let \<open>dl\<close> be a line of the document that the extractor reads as a link definition
  (it is not a footnote definition), wherever it stands: \<open>pre\<close>, the lines before it, is
  arbitrary and may hold the uses of the label. If no line after \<open>dl\<close> assigns the same key,
  then the table that \<open>extractDefinitions\<close> returns (the one table the block parser and the
  inline renderer work with) maps the key to the url and title of \<open>dl\<close>, and the callback of
  the reference links, on a match \<open>[label][ident]\<close> that names the key, puts into the vault
  the \<open>a\<close> element whose \<open>href\<close> is this url, whose \<open>title\<close> attribute (written when the
  definition has a title that is not empty) is this title, and whose content is the label.
\<close>

theorem forward_reference_resolves:
  assumes "split_on 10 (normalize_newlines src) = pre @ dl # post"
    and "rx_match re_footnote_def False dl = None"
    and "rx_match re_link_def False dl = Some (m, cs)"
    and "\<forall>l \<in> set post. \<not> redefines (toLowerCase (grp_or_empty cs 1)) l"
    and "grp_or_empty cs' 1 = label" and "grp_or_empty cs' 2 = ident"
    and "toLowerCase (if ident \<noteq> [] then ident else label) = toLowerCase (grp_or_empty cs 1)"
  shows "link_get (linkDefs (extractDefinitions src)) (toLowerCase (grp_or_empty cs 1))
           = Def \<lparr>url = grp_or_empty cs 2, title = grp cs 3\<rparr>
       \<and> ref_link_callback (extractDefinitions src) whole cs' st
           = Inr (placeholder_key (placeholderId st),
                  st\<lparr>placeholderId := Suc (placeholderId st),
                     placeholderMap := alist_set (placeholder_key (placeholderId st))
                       (js ''<a href=\"'' @ escapeHtmlAttr (grp_or_empty cs 2) @ js ''\"''
                        @ (case grp cs 3 of
                             None \<Rightarrow> []
                           | Some t \<Rightarrow> if t = [] then [] else js '' title=\"'' @ escapeHtmlAttr t @ js ''\"'')
                        @ js '' target=\"_blank\" rel=\"noreferrer\" class=\"text-primary underline-offset-2 hover:underline\">''
                        @ escapeHtml label @ js ''</a>'')
                       (placeholderMap st)\<rparr>)"
proof -
  let ?k = "toLowerCase (grp_or_empty cs 1)"
  let ?d = "\<lparr>url = grp_or_empty cs 2, title = grp cs 3\<rparr>"
  obtain remaining' L' F' A' where
    e: "extract_loop (pre @ dl # post) [] no_linkdefs [] [] = extract_loop post remaining' (link_set ?k ?d L') F' A'"
    using extract_loop_reaches [OF assms(2,3)] by blast
  have "link_bound (fst (snd (extract_loop post remaining' (link_set ?k ?d L') F' A'))) ?k ?d"
    by (rule extract_loop_keeps_link [OF link_bound_set assms(4)])
  then have g: "link_get (linkDefs (extractDefinitions src)) ?k = Def ?d"
    using e assms(1) by (auto simp: extractDefinitions_def split: prod.splits dest: link_bound_get)
  then show ?thesis
    using assms(5-7)
    by (simp add: ref_link_callback_def Let_def protect_def makePlaceholder_def link_html_def title_attr_def)
qed

theorem forward_reference_resolves_witness:
  \<open>split_on 10 (normalize_newlines (js ''[a][b]'' @ [10, 10] @ js ''[b]: http://x "T"''))
     = [js ''[a][b]'', []] @ js ''[b]: http://x "T"'' # []
   \<and> rx_match re_link_def False (js ''[b]: http://x "T"'')
       = Some (js ''[b]: http://x "T"'', [(3, js ''T''), (2, js ''http://x''), (1, js ''b'')])
   \<and> link_get (linkDefs (extractDefinitions (js ''[a][b]'' @ [10, 10] @ js ''[b]: http://x "T"''))) (js ''b'')
       = Def \<lparr>url = js ''http://x'', title = Some (js ''T'')\<rparr>
   \<and> ref_link_callback (extractDefinitions (js ''[a][b]'' @ [10, 10] @ js ''[b]: http://x "T"'')) (js ''[a][b]'')
         [(2, js ''b''), (1, js ''a'')] init_state
       = Inr ([57344, 48, 57345],
              \<lparr>placeholderId = 1,
               placeholderMap = [([57344, 48, 57345], (js ''<a href="http://x" title="T" target="_blank" rel="noreferrer" class="text-primary underl''
       @ js ''ine-offset-2 hover:underline">a</a>''))],
               headings = []\<rparr>)
   \<and> renderMarkdown 3 (js ''[a][b]'' @ [10, 10] @ js ''[b]: http://x "T"'') =
       Inr (js ''<p class="my-1 text-sm leading-relaxed"><a href="http://x" title="T" target="_blank" rel''
       @ js ''="noreferrer" class="text-primary underline-offset-2 hover:underline">a</a></p>'')\<close>
proof -
  let ?src = \<open>js ''[a][b]'' @ [10, 10] @ js ''[b]: http://x "T"''\<close>
  let ?cs = "[(3, js ''T''), (2, js ''http://x''), (1, js ''b'')]"
  have a: \<open>split_on 10 (normalize_newlines ?src) = [js ''[a][b]'', []] @ js ''[b]: http://x "T"'' # []\<close>
    by code_simp
  have b: \<open>rx_match re_footnote_def False (js ''[b]: http://x "T"'') = None\<close> by code_simp
  have c: \<open>rx_match re_link_def False (js ''[b]: http://x "T"'') = Some (js ''[b]: http://x "T"'', ?cs)\<close>
    by code_simp
  have d: "\<forall>l \<in> set []. \<not> redefines (toLowerCase (grp_or_empty ?cs 1)) l" by simp
  have e: "grp_or_empty [(2, js ''b''), (1, js ''a'')] 1 = js ''a''" "grp_or_empty [(2, js ''b''), (1, js ''a'')] 2 = js ''b''"
    by code_simp+
  have f: "toLowerCase (if js ''b'' \<noteq> [] then js ''b'' else js ''a'') = toLowerCase (grp_or_empty ?cs 1)"
    by code_simp
  have g: "toLowerCase (grp_or_empty ?cs 1) = js ''b''" "grp_or_empty ?cs 2 = js ''http://x''" "grp ?cs 3 = Some (js ''T'')"
    by code_simp+
  have k: \<open>Inr (placeholder_key (placeholderId init_state),
                  init_state\<lparr>placeholderId := Suc (placeholderId init_state),
                     placeholderMap := alist_set (placeholder_key (placeholderId init_state))
                       (js ''<a href="'' @ escapeHtmlAttr (js ''http://x'') @ js ''"''
                        @ (case Some (js ''T'') of
                             None \<Rightarrow> []
                           | Some t \<Rightarrow> if t = [] then [] else js '' title="'' @ escapeHtmlAttr t @ js ''"'')
                        @ js '' target="_blank" rel="noreferrer" class="text-primary underline-offset-2 hover:underline">''
                        @ escapeHtml (js ''a'') @ js ''</a>'')
                       (placeholderMap init_state)\<rparr>)
      = (Inr ([57344, 48, 57345],
              \<lparr>placeholderId = 1,
               placeholderMap = [([57344, 48, 57345], (js ''<a href="http://x" title="T" target="_blank" rel="noreferrer" class="text-primary underl''
       @ js ''ine-offset-2 hover:underline">a</a>''))],
               headings = []\<rparr>) :: error + int list \<times> rstate)\<close>
    by code_simp
  have h: \<open>renderMarkdown 3 ?src =
       Inr (js ''<p class="my-1 text-sm leading-relaxed"><a href="http://x" title="T" target="_blank" rel''
       @ js ''="noreferrer" class="text-primary underline-offset-2 hover:underline">a</a></p>'')\<close>
    by code_simp
  from forward_reference_resolves [OF a b c d e f, of "js ''[a][b]''" init_state]
  have \<open>link_get (linkDefs (extractDefinitions ?src)) (js ''b'') = Def \<lparr>url = js ''http://x'', title = Some (js ''T'')\<rparr>
     \<and> ref_link_callback (extractDefinitions ?src) (js ''[a][b]'') [(2, js ''b''), (1, js ''a'')] init_state
       = Inr ([57344, 48, 57345],
              \<lparr>placeholderId = 1,
               placeholderMap = [([57344, 48, 57345], (js ''<a href="http://x" title="T" target="_blank" rel="noreferrer" class="text-primary underl''
       @ js ''ine-offset-2 hover:underline">a</a>''))],
               headings = []\<rparr>)\<close>
    by (simp only: g k)
  with a c h show ?thesis by blast
qed

subsection \<open>Table alignment\<close>

lemma align_of_no_colon:
  assumes "58 \<notin> set c"
  shows "align_of c = []"
proof -
  have a: "\<not> starts_with c [58]" using assms by (cases c) auto
  have b: "\<not> ends_with c [58]" using assms by (cases c rule: rev_cases) (auto simp: ends_with_def)
  show ?thesis using a b by (simp add: align_of_def js_def)
qed

text \<open>
  Claim C6. The divider line of the example is accepted by \<open>isTableDivider\<close> and gives the
  alignments left, center, right, in this order; so do the three cells taken by themselves;
  and a cell without a colon (U+003A) gives the empty alignment, for which no \<open>style\<close>
  attribute is written.
\<close>

theorem table_alignment:
  "isTableDivider (js ''| :--- | :---: | ---: |'')
   \<and> table_aligns (js ''| :--- | :---: | ---: |'') = [js ''left'', js ''center'', js ''right'']
   \<and> map align_of [js '':---'', js '':---:'', js ''---:''] = [js ''left'', js ''center'', js ''right'']
   \<and> (58 \<notin> set c \<longrightarrow> align_of c = [])"
proof -
  have "isTableDivider (js ''| :--- | :---: | ---: |'')" by code_simp
  moreover have "table_aligns (js ''| :--- | :---: | ---: |'') = [js ''left'', js ''center'', js ''right'']"
    by code_simp
  moreover have "map align_of [js '':---'', js '':---:'', js ''---:''] = [js ''left'', js ''center'', js ''right'']"
    by code_simp
  ultimately show ?thesis using align_of_no_colon by blast
qed

theorem table_alignment_witness:
  "58 \<notin> set (js ''---'') \<and> align_of (js ''---'') = []
   \<and> table_aligns (js ''| :--- | :---: | ---: |'') = [js ''left'', js ''center'', js ''right'']"
proof -
  have "58 \<notin> set (js ''---'')" by code_simp
  with table_alignment [of "js ''---''"] show ?thesis by blast
qed

subsection \<open>Rule ordering\<close>

text \<open>
  Claim C7. The input of a code span around \<open>**bold**\<close> (one backquote, U+0060, on either
  side) is compiled, for every recursion bound of at least two, to a paragraph whose only
  content is the code fragment with the literal text \<open>**bold**\<close>: no \<open>strong\<close> element is
  emitted, the rule of the code spans has stored its markup before the rules of emphasis run.
\<close>

theorem code_span_before_emphasis:
  \<open>renderMarkdown (Suc (Suc k)) ([96] @ js ''**bold**'' @ [96]) =
     Inr (js ''<p class="my-1 text-sm leading-relaxed"><code class="rounded bg-muted px-1 py-0.5 text-[0.8em] font-mono">**bold**</code></p>'')\<close>
  by code_simp

subsection \<open>Reference labels without a definition\<close>

text \<open>
  Claim C8. With no definition at all, the label \<open>constructor\<close> is found on the prototype
  chain of \<open>linkDefs\<close>; the rule of the reference links then reads \<open>url\<close> of a function and
  passes \<open>undefined\<close> to \<open>escapeHtmlAttr\<close>, which throws.
\<close>

theorem dangling_constructor_label_throws:
  "renderMarkdown (Suc (Suc k)) (js ''[text][constructor]'') = Inl TypeError"
  by code_simp

text \<open>The example of the claim, a label that is on no prototype, is left as it is.\<close>

lemma dangling_label_left_literal:
  \<open>renderMarkdown (Suc (Suc k)) (js ''[text][missing]'') =
     Inr (js ''<p class="my-1 text-sm leading-relaxed">[text][missing]</p>'')\<close>
  by code_simp

subsection \<open>Anchors and the table of contents\<close>








end
